theory Spec2Isabelle
  imports Complex_Main "HOL-Library.Word" "HOL-Library.Multiset" "HOL-Library.Product_Lexorder"
begin

unbundle bit_operations_syntax

section \<open>Conventions of the embedding\<close>

text \<open>
  The firmware is C on FreeRTOS. Each module keeps its state in file-level \<^verbatim>\<open>static\<close>
  variables; the embedding collects the variables of one module in a record that every
  function takes and returns. Function-level \<^verbatim>\<open>static\<close> variables
  (\<^verbatim>\<open>cont_fails_i\<close>, \<^verbatim>\<open>imax_ths\<close>) are fields of the same record.

  \<^item> \<^verbatim>\<open>uint8_t\<close>, \<^verbatim>\<open>uint32_t\<close> and \<^verbatim>\<open>TickType_t\<close> are words; \<^verbatim>\<open>int16_t\<close> is a
    16-bit word read in two's complement, through \<open>sint\<close>.
  \<^item> \<^verbatim>\<open>float\<close> and \<^verbatim>\<open>double\<close> values are real numbers; infinities and NaN are not
    represented. The arithmetic of the measurements and of the thresholds is the exact one.
    The energy total is the exception: \<^verbatim>\<open>state.measure.E\<close> is a \<^verbatim>\<open>float\<close> that
    \<^verbatim>\<open>state_update_measure\<close> adds to at every window, so what it holds after an addition
    is the sum rounded to single precision, and the difference from which the save is decided
    is a \<^verbatim>\<open>double\<close>. These roundings are written out with the functions \<open>f32_round\<close> and
    \<open>f64_round\<close> below.
  \<^item> Arrays of \<^verbatim>\<open>NUM_LOADS\<close> elements are lists; every index used by the functions below
    is guarded by the source (\<^verbatim>\<open>id >= NUM_LOADS\<close>) or assumed in range by its contract.
  \<^item> The tick counter of the scheduler is an environment that is read, never written:
    the sequence of values that successive calls of \<^verbatim>\<open>xTaskGetTickCount\<close> return.
\<close>

type_synonym uint8_t = "8 word"
type_synonym int16_t = "16 word"
type_synonym uint32_t = "32 word"
type_synonym TickType_t = "32 word"

subsection \<open>Rounding to a binary floating-point format\<close>

text \<open>
  The value that an operation of IEEE 754 arithmetic delivers in the default rounding mode:
  the nearest number of the format, the one with an even significand when two are equally
  near. A format is given by its precision \<open>p\<close> (the number of bits of the significand) and
  its least exponent \<open>emin\<close>; its numbers are the integer multiples \<open>n * 2 powi (e - (p - 1))\<close>
  with \<open>\<bar>n\<bar> < 2 ^ p\<close> and \<open>e \<ge> emin\<close>, subnormal numbers included. The exponent is not
  bounded above: overflow to infinity is not represented.
\<close>

definition round_half_even :: "real \<Rightarrow> int" where
  "round_half_even t =
     (let f = \<lfloor>t\<rfloor>; d = t - of_int f
      in if d < 1 / 2 then f else if 1 / 2 < d then f + 1 else if even f then f else f + 1)"

text \<open>The exponent of the binade of \<open>x\<close>, and the spacing of the format's numbers there.\<close>

definition fl_exp :: "int \<Rightarrow> real \<Rightarrow> int" where
  "fl_exp emin x = max emin \<lfloor>log 2 \<bar>x\<bar>\<rfloor>"

definition fl_ulp :: "nat \<Rightarrow> int \<Rightarrow> real \<Rightarrow> real" where
  "fl_ulp p emin x = 2 powi (fl_exp emin x - (int p - 1))"

definition fl_round :: "nat \<Rightarrow> int \<Rightarrow> real \<Rightarrow> real" where
  "fl_round p emin x =
     (if x = 0 then 0 else of_int (round_half_even (x / fl_ulp p emin x)) * fl_ulp p emin x)"

text \<open>\<^verbatim>\<open>float\<close> is binary32 and \<^verbatim>\<open>double\<close> is binary64.\<close>

definition f32_round :: "real \<Rightarrow> real" where
  "f32_round = fl_round 24 (- 126)"

definition f64_round :: "real \<Rightarrow> real" where
  "f64_round = fl_round 53 (- 1022)"

section \<open>The firmware\<close>

subsection \<open>system\_config.h, control.h: constants\<close>

definition NUM_LOADS :: nat where "NUM_LOADS = 4"
definition CONTROL_REC_I_TIME_MS :: uint32_t where "CONTROL_REC_I_TIME_MS = 5000"
definition CONTROL_REC_V_TIME_MS :: uint32_t where "CONTROL_REC_V_TIME_MS = 3000"
definition CONTROL_REPET_I_RST_MS :: uint32_t where "CONTROL_REPET_I_RST_MS = 10000"
definition DEFAULT_IMAX :: real where "DEFAULT_IMAX = 5"
definition DEFAULT_VMIN :: int16_t where "DEFAULT_VMIN = 200"
definition DEFAULT_VMAX :: int16_t where "DEFAULT_VMAX = 250"
definition DEFAULT_AUTO_REC :: bool where "DEFAULT_AUTO_REC = True"
definition IMAX_HYST_PRC :: real where "IMAX_HYST_PRC = 10"
definition VRANGE_HYST_PRC :: real where "VRANGE_HYST_PRC = 5"
definition MAX_FAIL_I :: uint8_t where "MAX_FAIL_I = 2"

subsection \<open>The scheduler's clock\<close>

text \<open>
  \<open>tick_reads k\<close> is the value of the \<open>k\<close>-th coming call of \<^verbatim>\<open>xTaskGetTickCount\<close>;
  a call returns the head and leaves the rest. \<^verbatim>\<open>configTICK_RATE_HZ\<close> belongs to the
  build configuration, which is not part of the sources, and is a field of the
  environment. \<^verbatim>\<open>pdTICKS_TO_MS\<close> is the FreeRTOS macro: the product is taken in 64 bits
  and the quotient cast back to \<^verbatim>\<open>TickType_t\<close>.
\<close>

record rtos =
  configTICK_RATE_HZ :: nat
  tick_reads :: "nat \<Rightarrow> TickType_t"

definition xTaskGetTickCount :: "rtos \<Rightarrow> TickType_t \<times> rtos" where
  "xTaskGetTickCount env = (tick_reads env 0, env\<lparr>tick_reads := (\<lambda>k. tick_reads env (Suc k))\<rparr>)"

definition pdTICKS_TO_MS :: "rtos \<Rightarrow> TickType_t \<Rightarrow> uint32_t" where
  "pdTICKS_TO_MS env xTicks = word_of_nat ((unat xTicks * 1000) div configTICK_RATE_HZ env)"

subsection \<open>system\_timers.c\<close>

record sys_timer_t =
  start_tick :: TickType_t
  timeout_ms :: uint32_t
  active :: bool

definition timer_start :: "sys_timer_t \<Rightarrow> uint32_t \<Rightarrow> rtos \<Rightarrow> sys_timer_t \<times> rtos" where
  "timer_start timer tout_ms env =
     (let (now, env') = xTaskGetTickCount env
      in (timer\<lparr>start_tick := now, timeout_ms := tout_ms, active := True\<rparr>, env'))"

definition timer_expired :: "sys_timer_t \<Rightarrow> rtos \<Rightarrow> bool \<times> rtos" where
  "timer_expired timer env =
     (if \<not> active timer then (False, env)
      else let (now, env') = xTaskGetTickCount env;
               lapse = now - start_tick timer
           in (pdTICKS_TO_MS env lapse \<ge> timeout_ms timer, env'))"

definition timer_stop :: "sys_timer_t \<Rightarrow> sys_timer_t" where
  "timer_stop timer = timer\<lparr>active := False\<rparr>"

subsection \<open>control.h: configuration and FSM states\<close>

datatype ctrl_mode_t = CTRL_MODE_AUTO | CTRL_MODE_MAN

record load_cfg_t =
  v_min :: int16_t
  v_max :: int16_t
  auto_rec :: bool
  priority :: uint8_t

record sys_load_cfg_t =
  imax :: real
  load :: "load_cfg_t list"

datatype control_global_fsm_t =
  CONTROL_GLOBAL_OK | CONTROL_GLOBAL_FAIL_I | CONTROL_GLOBAL_REC | CONTROL_GLOBAL_MAN_REC

datatype control_indiv_fsm_t =
  CONTROL_INDIV_ON | CONTROL_INDIV_FAIL_V | CONTROL_INDIV_OFF

subsection \<open>control.c: the module's variables\<close>

record control_t =
  ctrl_mode :: ctrl_mode_t
  load_state :: "bool list"
  s_cfg :: sys_load_cfg_t
  priority_index :: "uint8_t list"
  imax_fail :: bool
  v_fail :: "bool list"
  imax_repetitive :: bool
  control_global_state :: control_global_fsm_t
  control_state :: "control_indiv_fsm_t list"
  timer_global_rec :: sys_timer_t
  timer_cont_fails_i :: sys_timer_t
  timer_load_rec :: "sys_timer_t list"
  cont_fails_i :: uint8_t
  imax_ths :: bool

subsection \<open>control.c: the global overcurrent FSM\<close>

text \<open>The latched trip signal, updated at the head of \<^verbatim>\<open>control_global_fsm\<close>.\<close>

definition update_imax_ths :: "real \<Rightarrow> control_t \<Rightarrow> control_t" where
  "update_imax_ths I c =
     (let imax_cut = imax (s_cfg c);
          imax_reset = imax_cut * (1 - IMAX_HYST_PRC / 100)
      in if \<not> imax_ths c \<and> I > imax_cut then c\<lparr>imax_ths := True\<rparr>
         else if imax_ths c \<and> I < imax_reset then c\<lparr>imax_ths := False\<rparr>
         else c)"

text \<open>One definition for each \<^verbatim>\<open>case\<close> of the \<^verbatim>\<open>switch\<close>, in the order of its statements.\<close>

definition global_case_ok :: "control_t \<Rightarrow> rtos \<Rightarrow> bool \<times> control_t \<times> rtos" where
  "global_case_ok c env =
     (let (c1, env1) =
            (if cont_fails_i c \<noteq> 0 \<and> \<not> active (timer_cont_fails_i c)
             then (let (t, e) = timer_start (timer_cont_fails_i c) CONTROL_REPET_I_RST_MS env
                   in (c\<lparr>timer_cont_fails_i := t\<rparr>, e))
             else (c, env));
          (expired, env2) = timer_expired (timer_cont_fails_i c1) env1;
          c2 = (if expired
                then c1\<lparr>timer_cont_fails_i := timer_stop (timer_cont_fails_i c1), cont_fails_i := 0\<rparr>
                else c1)
      in if imax_ths c2
         then (False,
               c2\<lparr>control_global_state := CONTROL_GLOBAL_FAIL_I,
                  imax_fail := True,
                  cont_fails_i := cont_fails_i c2 + 1,
                  timer_cont_fails_i := timer_stop (timer_cont_fails_i c2)\<rparr>,
               env2)
         else (True, c2, env2))"

definition global_case_fail_i :: "control_t \<Rightarrow> rtos \<Rightarrow> bool \<times> control_t \<times> rtos" where
  "global_case_fail_i c env =
     (if \<not> imax_ths c
      then (let c1 = c\<lparr>imax_fail := False\<rparr>
            in if cont_fails_i c1 < MAX_FAIL_I
               then (let (t, e) = timer_start (timer_global_rec c1) CONTROL_REC_I_TIME_MS env
                     in (False, c1\<lparr>control_global_state := CONTROL_GLOBAL_REC, timer_global_rec := t\<rparr>, e))
               else (False, c1\<lparr>control_global_state := CONTROL_GLOBAL_MAN_REC, imax_repetitive := True\<rparr>, env))
      else (False, c, env))"

definition global_case_rec :: "control_t \<Rightarrow> rtos \<Rightarrow> bool \<times> control_t \<times> rtos" where
  "global_case_rec c env =
     (let c1 = c\<lparr>imax_fail := False\<rparr>
      in if imax_ths c1
         then (False,
               c1\<lparr>timer_global_rec := timer_stop (timer_global_rec c1),
                  control_global_state := CONTROL_GLOBAL_FAIL_I,
                  cont_fails_i := cont_fails_i c1 + 1,
                  imax_fail := True\<rparr>,
               env)
         else (let (expired, e) = timer_expired (timer_global_rec c1) env
               in if expired
                  then (True,
                        c1\<lparr>timer_global_rec := timer_stop (timer_global_rec c1),
                           control_global_state := CONTROL_GLOBAL_OK\<rparr>,
                        e)
                  else (False, c1, e)))"

definition global_case_man_rec :: "control_t \<Rightarrow> rtos \<Rightarrow> bool \<times> control_t \<times> rtos" where
  "global_case_man_rec c env = (False, c\<lparr>imax_repetitive := True, cont_fails_i := 0\<rparr>, env)"

definition control_global_fsm :: "real \<Rightarrow> control_t \<Rightarrow> rtos \<Rightarrow> bool \<times> control_t \<times> rtos" where
  "control_global_fsm I c env =
     (let c1 = update_imax_ths I c
      in case control_global_state c1 of
           CONTROL_GLOBAL_OK \<Rightarrow> global_case_ok c1 env
         | CONTROL_GLOBAL_FAIL_I \<Rightarrow> global_case_fail_i c1 env
         | CONTROL_GLOBAL_REC \<Rightarrow> global_case_rec c1 env
         | CONTROL_GLOBAL_MAN_REC \<Rightarrow> global_case_man_rec c1 env)"

definition control_global_fsm_init :: "control_t \<Rightarrow> control_t" where
  "control_global_fsm_init c = c\<lparr>control_global_state := CONTROL_GLOBAL_OK, imax_repetitive := False\<rparr>"

subsection \<open>control.c: the per-load voltage FSM\<close>

text \<open>
  The conversions of \<^verbatim>\<open>vmin * (1.0f - VRANGE_HYST_PRC/100.0f)\<close>: the \<^verbatim>\<open>int16_t\<close> operand
  becomes a float, and the product is stored in an \<^verbatim>\<open>int16_t\<close>, which drops the fraction
  (towards zero). A product outside the range of \<^verbatim>\<open>int16_t\<close> is undefined in C; the
  model keeps the low 16 bits.
\<close>

definition int16_to_float :: "int16_t \<Rightarrow> real" where
  "int16_to_float v = real_of_int (sint v)"

definition float_to_int16 :: "real \<Rightarrow> int16_t" where
  "float_to_int16 x = word_of_int (if 0 \<le> x then \<lfloor>x\<rfloor> else \<lceil>x\<rceil>)"

definition vmin_hyst_of :: "int16_t \<Rightarrow> int16_t" where
  "vmin_hyst_of vmin =
     (if 0 \<le> sint vmin then float_to_int16 (int16_to_float vmin * (1 - VRANGE_HYST_PRC / 100)) else -1)"

definition vmax_hyst_of :: "int16_t \<Rightarrow> int16_t" where
  "vmax_hyst_of vmax =
     (if 0 \<le> sint vmax then float_to_int16 (int16_to_float vmax * (1 + VRANGE_HYST_PRC / 100)) else -1)"

definition v_out_range_of :: "bool \<Rightarrow> int16_t \<Rightarrow> int16_t \<Rightarrow> int16_t \<Rightarrow> bool" where
  "v_out_range_of vfail vmin vmax vrms =
     (if vfail
      then (sint vrms < sint (vmin_hyst_of vmin) \<and> 0 \<le> sint vmin) \<or>
           (sint vrms > sint (vmax_hyst_of vmax) \<and> 0 \<le> sint vmax)
      else (sint vrms < sint vmin \<and> 0 \<le> sint vmin) \<or>
           (sint vrms > sint vmax \<and> 0 \<le> sint vmax))"

definition indiv_case_on :: "nat \<Rightarrow> bool \<Rightarrow> control_t \<Rightarrow> rtos \<Rightarrow> bool \<times> control_t \<times> rtos" where
  "indiv_case_on i v_out_range c env =
     (let c1 = c\<lparr>v_fail := (v_fail c)[i := False]\<rparr>
      in if v_out_range
         then (False,
               c1\<lparr>control_state := (control_state c1)[i := CONTROL_INDIV_FAIL_V],
                  v_fail := (v_fail c1)[i := True]\<rparr>,
               env)
         else (True, c1, env))"

definition indiv_case_off :: "nat \<Rightarrow> bool \<Rightarrow> bool \<Rightarrow> control_t \<Rightarrow> rtos \<Rightarrow> bool \<times> control_t \<times> rtos" where
  "indiv_case_off i v_out_range autorec c env =
     (let c1 = c\<lparr>v_fail := (v_fail c)[i := False]\<rparr>
      in if v_out_range
         then (False,
               c1\<lparr>timer_load_rec := (timer_load_rec c1)[i := timer_stop (timer_load_rec c1 ! i)],
                  control_state := (control_state c1)[i := CONTROL_INDIV_FAIL_V],
                  v_fail := (v_fail c1)[i := True]\<rparr>,
               env)
         else if autorec
         then (if \<not> active (timer_load_rec c1 ! i)
               then (let (t, e) = timer_start (timer_load_rec c1 ! i) CONTROL_REC_V_TIME_MS env
                     in (False, c1\<lparr>timer_load_rec := (timer_load_rec c1)[i := t]\<rparr>, e))
               else (let (expired, e) = timer_expired (timer_load_rec c1 ! i) env
                     in if expired
                        then (True,
                              c1\<lparr>timer_load_rec := (timer_load_rec c1)[i := timer_stop (timer_load_rec c1 ! i)],
                                 control_state := (control_state c1)[i := CONTROL_INDIV_ON]\<rparr>,
                              e)
                        else (False, c1, e)))
         else (False, c1, env))"

definition indiv_case_fail_v :: "nat \<Rightarrow> bool \<Rightarrow> bool \<Rightarrow> control_t \<Rightarrow> rtos \<Rightarrow> bool \<times> control_t \<times> rtos" where
  "indiv_case_fail_v i v_out_range autorec c env =
     (let c1 = c\<lparr>v_fail := (v_fail c)[i := True]\<rparr>
      in if \<not> v_out_range
         then (let c2 = c1\<lparr>control_state := (control_state c1)[i := CONTROL_INDIV_OFF]\<rparr>;
                   (c3, e) = (if autorec
                              then (let (t, e) = timer_start (timer_load_rec c2 ! i) CONTROL_REC_V_TIME_MS env
                                    in (c2\<lparr>timer_load_rec := (timer_load_rec c2)[i := t]\<rparr>, e))
                              else (c2, env))
               in (False, c3\<lparr>v_fail := (v_fail c3)[i := False]\<rparr>, e))
         else (False, c1, env))"

definition control_indiv_fsm :: "uint8_t \<Rightarrow> int16_t \<Rightarrow> control_t \<Rightarrow> rtos \<Rightarrow> bool \<times> control_t \<times> rtos" where
  "control_indiv_fsm id' vrms c env =
     (let i = unat id';
          vmin = v_min (load (s_cfg c) ! i);
          vmax = v_max (load (s_cfg c) ! i);
          autorec = auto_rec (load (s_cfg c) ! i);
          v_out_range = v_out_range_of (v_fail c ! i) vmin vmax vrms
      in case control_state c ! i of
           CONTROL_INDIV_ON \<Rightarrow> indiv_case_on i v_out_range c env
         | CONTROL_INDIV_OFF \<Rightarrow> indiv_case_off i v_out_range autorec c env
         | CONTROL_INDIV_FAIL_V \<Rightarrow> indiv_case_fail_v i v_out_range autorec c env)"

definition control_indiv_fsm_init :: "nat \<Rightarrow> control_t \<Rightarrow> control_t" where
  "control_indiv_fsm_init i c =
     c\<lparr>control_state := (control_state c)[i := (if load_state c ! i then CONTROL_INDIV_ON else CONTROL_INDIV_OFF)],
       timer_load_rec := (timer_load_rec c)[i := (timer_load_rec c ! i)\<lparr>active := False\<rparr>],
       v_fail := (v_fail c)[i := False]\<rparr>"

subsection \<open>control.c: the priority index\<close>

text \<open>The three loops of \<^verbatim>\<open>control_rebuild_priority_index\<close>, each with its counter.\<close>

function rebuild_fill :: "nat \<Rightarrow> uint8_t list \<Rightarrow> uint8_t list" where
  "rebuild_fill i idx = (if i < NUM_LOADS then rebuild_fill (i + 1) (idx[i := of_nat i]) else idx)"
  by pat_completeness auto
termination
  by (relation "Wellfounded.measure (\<lambda>(i, idx). NUM_LOADS - i)") auto

definition swap_wanted :: "sys_load_cfg_t \<Rightarrow> uint8_t list \<Rightarrow> nat \<Rightarrow> nat \<Rightarrow> bool" where
  "swap_wanted cfg idx i j =
     (let id_i = idx ! i;
          id_j = idx ! j;
          pr_i = priority (load cfg ! unat id_i);
          pr_j = priority (load cfg ! unat id_j)
      in pr_j < pr_i \<or> (pr_j = pr_i \<and> id_j < id_i))"

function rebuild_inner :: "sys_load_cfg_t \<Rightarrow> nat \<Rightarrow> nat \<Rightarrow> uint8_t list \<Rightarrow> uint8_t list" where
  "rebuild_inner cfg i j idx =
     (if j < NUM_LOADS
      then rebuild_inner cfg i (j + 1)
             (if swap_wanted cfg idx i j then idx[i := idx ! j, j := idx ! i] else idx)
      else idx)"
  by pat_completeness auto
termination
  by (relation "Wellfounded.measure (\<lambda>(cfg, i, j, idx). NUM_LOADS - j)") auto

function rebuild_outer :: "sys_load_cfg_t \<Rightarrow> nat \<Rightarrow> uint8_t list \<Rightarrow> uint8_t list" where
  "rebuild_outer cfg i idx =
     (if i < NUM_LOADS - 1
      then rebuild_outer cfg (i + 1) (rebuild_inner cfg i (i + 1) idx)
      else idx)"
  by pat_completeness auto
termination
  by (relation "Wellfounded.measure (\<lambda>(cfg, i, idx). NUM_LOADS - i)") auto

declare rebuild_fill.simps [simp del] rebuild_inner.simps [simp del] rebuild_outer.simps [simp del]

definition control_rebuild_priority_index :: "control_t \<Rightarrow> control_t" where
  "control_rebuild_priority_index c =
     c\<lparr>priority_index := rebuild_outer (s_cfg c) 0 (rebuild_fill 0 (priority_index c))\<rparr>"

subsection \<open>control.c: configuration access\<close>

definition upd_load :: "nat \<Rightarrow> (load_cfg_t \<Rightarrow> load_cfg_t) \<Rightarrow> control_t \<Rightarrow> control_t" where
  "upd_load i f c = c\<lparr>s_cfg := (s_cfg c)\<lparr>load := (load (s_cfg c))[i := f (load (s_cfg c) ! i)]\<rparr>\<rparr>"

definition control_set_load_vmin :: "uint8_t \<Rightarrow> int16_t \<Rightarrow> control_t \<Rightarrow> bool \<times> control_t" where
  "control_set_load_vmin id' vmin c =
     (if unat id' \<ge> NUM_LOADS then (False, c)
      else (True, upd_load (unat id') (\<lambda>l. l\<lparr>v_min := vmin\<rparr>) c))"

definition control_set_load_vmax :: "uint8_t \<Rightarrow> int16_t \<Rightarrow> control_t \<Rightarrow> bool \<times> control_t" where
  "control_set_load_vmax id' vmax c =
     (if unat id' \<ge> NUM_LOADS then (False, c)
      else (True, upd_load (unat id') (\<lambda>l. l\<lparr>v_max := vmax\<rparr>) c))"

definition control_set_load_priority :: "uint8_t \<Rightarrow> uint8_t \<Rightarrow> control_t \<Rightarrow> bool \<times> control_t" where
  "control_set_load_priority id' pr c =
     (if unat id' \<ge> NUM_LOADS then (False, c)
      else (True, control_rebuild_priority_index (upd_load (unat id') (\<lambda>l. l\<lparr>priority := pr\<rparr>) c)))"

definition control_get_v_min :: "uint8_t \<Rightarrow> control_t \<Rightarrow> int16_t" where
  "control_get_v_min id' c = (if unat id' \<ge> NUM_LOADS then -1 else v_min (load (s_cfg c) ! unat id'))"

definition control_get_v_max :: "uint8_t \<Rightarrow> control_t \<Rightarrow> int16_t" where
  "control_get_v_max id' c = (if unat id' \<ge> NUM_LOADS then -1 else v_max (load (s_cfg c) ! unat id'))"

text \<open>
  \<^verbatim>\<open>control_load_from_nvs\<close>: the result of \<^verbatim>\<open>nvs_load_config\<close> (flash contents) is an
  argument, \<open>None\<close> when it reports failure. The loop copies the four fields of each load.
\<close>

function load_copy :: "nat \<Rightarrow> load_cfg_t list \<Rightarrow> load_cfg_t list \<Rightarrow> load_cfg_t list" where
  "load_copy i src dst =
     (if i < NUM_LOADS
      then load_copy (i + 1) src
             (dst[i := (dst ! i)\<lparr>v_min := v_min (src ! i), v_max := v_max (src ! i),
                                auto_rec := auto_rec (src ! i), priority := priority (src ! i)\<rparr>])
      else dst)"
  by pat_completeness auto
termination
  by (relation "Wellfounded.measure (\<lambda>(i, src, dst). NUM_LOADS - i)") auto

definition control_load_from_nvs :: "sys_load_cfg_t option \<Rightarrow> control_t \<Rightarrow> bool \<times> control_t" where
  "control_load_from_nvs stored c =
     (case stored of
        None \<Rightarrow> (False, c)
      | Some cfg \<Rightarrow>
          (True, control_rebuild_priority_index
                   (c\<lparr>s_cfg := \<lparr>imax = imax cfg, load = load_copy 0 (load cfg) (load (s_cfg c))\<rparr>\<rparr>)))"

text \<open>\<^verbatim>\<open>control_reset\<close>: the defaults, load by load.\<close>

function reset_loop :: "nat \<Rightarrow> control_t \<Rightarrow> control_t" where
  "reset_loop i c =
     (if i < NUM_LOADS
      then reset_loop (i + 1)
             (control_indiv_fsm_init i
                ((upd_load i (\<lambda>l. l\<lparr>v_min := DEFAULT_VMIN, v_max := DEFAULT_VMAX,
                                    auto_rec := DEFAULT_AUTO_REC, priority := of_nat i\<rparr>) c)
                   \<lparr>priority_index := (priority_index c)[i := of_nat i],
                    load_state := (load_state c)[i := False],
                    v_fail := (v_fail c)[i := False]\<rparr>))
      else c)"
  by pat_completeness auto
termination
  by (relation "Wellfounded.measure (\<lambda>(i, c). NUM_LOADS - i)") auto

definition control_reset :: "control_t \<Rightarrow> control_t" where
  "control_reset c =
     control_global_fsm_init
       (reset_loop 0
          (c\<lparr>ctrl_mode := CTRL_MODE_AUTO,
             s_cfg := (s_cfg c)\<lparr>imax := DEFAULT_IMAX\<rparr>,
             timer_global_rec := (timer_global_rec c)\<lparr>active := False\<rparr>,
             imax_fail := False,
             imax_repetitive := False\<rparr>))"

subsection \<open>The command handlers that write the voltage bounds\<close>

text \<open>
  \<^verbatim>\<open>uart_process_command\<close>, branches \<^verbatim>\<open>CFG VMAX SET\<close> and \<^verbatim>\<open>CFG VMIN SET\<close>, after the
  session check and the parsing of the two arguments (\<^verbatim>\<open>atoi\<close>); and \<^verbatim>\<open>task_iot_rx\<close>,
  case \<^verbatim>\<open>IOT_CMD_CFG_VRANGE_SET\<close>, after the JSON has been parsed.
\<close>

datatype uart_resp_t = send_ok string | send_error string

definition uart_cfg_vmax_set :: "uint8_t \<Rightarrow> int16_t \<Rightarrow> control_t \<Rightarrow> uart_resp_t \<times> control_t" where
  "uart_cfg_vmax_set id' v c =
     (if unat id' \<ge> NUM_LOADS then (send_error ''ID_INVALIDO'', c)
      else if sint v < -1 \<or> (v \<noteq> -1 \<and> sint v \<le> sint (control_get_v_min id' c))
      then (send_error ''VALOR_INVALIDO'', c)
      else (send_ok ''VMAX_SETEADO'', snd (control_set_load_vmax id' v c)))"

definition uart_cfg_vmin_set :: "uint8_t \<Rightarrow> int16_t \<Rightarrow> control_t \<Rightarrow> uart_resp_t \<times> control_t" where
  "uart_cfg_vmin_set id' v c =
     (if unat id' \<ge> NUM_LOADS then (send_error ''ID_INVALIDO'', c)
      else if sint v < -1 \<or> (v \<noteq> -1 \<and> sint v \<ge> sint (control_get_v_max id' c))
      then (send_error ''VALOR_INVALIDO'', c)
      else (send_ok ''VMIN_SETEADO'', snd (control_set_load_vmin id' v c)))"

definition iot_cfg_vrange_set :: "uint8_t \<Rightarrow> int16_t \<Rightarrow> int16_t \<Rightarrow> control_t \<Rightarrow> control_t" where
  "iot_cfg_vrange_set id' vmin vmax c =
     (if unat id' < NUM_LOADS
      then snd (control_set_load_vmax id' vmax (snd (control_set_load_vmin id' vmin c)))
      else c)"

text \<open>The relation between the two bounds of one load, and of every load of the configuration.\<close>

definition vrange_ok :: "load_cfg_t \<Rightarrow> bool" where
  "vrange_ok l = (if 0 \<le> sint (v_min l) \<and> 0 \<le> sint (v_max l) then sint (v_min l) < sint (v_max l) else True)"

definition cfg_vrange_ok :: "control_t \<Rightarrow> bool" where
  "cfg_vrange_ok c = list_all vrange_ok (load (s_cfg c))"

subsection \<open>measure.h, measure.c\<close>

definition SAMPLE_FREQ_HZ :: nat where "SAMPLE_FREQ_HZ = 20000"
definition FUND_FREQ_HZ :: nat where "FUND_FREQ_HZ = 50"
definition PAIRS_PER_CYCLE :: nat where "PAIRS_PER_CYCLE = SAMPLE_FREQ_HZ div FUND_FREQ_HZ"
definition NUM_CYCLES_ACCUM :: nat where "NUM_CYCLES_ACCUM = 10"
definition NUM_SAMPLES_ACCUM :: nat where "NUM_SAMPLES_ACCUM = PAIRS_PER_CYCLE * NUM_CYCLES_ACCUM"
definition TIME_SAMPLE_S :: real where "TIME_SAMPLE_S = (1 / real SAMPLE_FREQ_HZ) * real NUM_SAMPLES_ACCUM"
definition TIME_SAMPLE_H :: real where "TIME_SAMPLE_H = TIME_SAMPLE_S / 3600"
definition SAVE_ENERGY_THS_KWH :: real where "SAVE_ENERGY_THS_KWH = 1"

definition ACS712_5A_SENSITIVITY :: real where "ACS712_5A_SENSITIVITY = 185 / 1000"
definition ACS712_GROUNDNOISE :: real where "ACS712_GROUNDNOISE = 15 / 100"
definition ACS712_OFFSET :: real where "ACS712_OFFSET = 5 / 100"
definition VOLT_DRIVER_GAIN :: real where "VOLT_DRIVER_GAIN = - (405 / 100000)"
definition VOLT_DRIVER_GROUNDNOISE :: real where "VOLT_DRIVER_GROUNDNOISE = 114"

record measure_t =
  Vrms :: real
  VDC :: real
  Vpk :: real
  Irms :: real
  IDC :: real
  Ipk :: real
  P :: real
  S :: real
  fp :: real
  E :: real

record measure_mod =
  v_buf :: "int16_t list"
  i_buf :: "int16_t list"
  sample_index :: nat

definition measure_add_sample :: "int16_t \<Rightarrow> int16_t \<Rightarrow> measure_mod \<Rightarrow> bool \<times> measure_mod" where
  "measure_add_sample v_mv i_mv mm =
     (let mm1 = mm\<lparr>v_buf := (v_buf mm)[sample_index mm := v_mv],
                   i_buf := (i_buf mm)[sample_index mm := i_mv],
                   sample_index := sample_index mm + 1\<rparr>
      in if sample_index mm1 \<ge> NUM_SAMPLES_ACCUM then (True, mm1\<lparr>sample_index := 0\<rparr>) else (False, mm1))"

text \<open>
  The first loop of \<^verbatim>\<open>measure_get_results\<close>: \<open>sum_loop buf n\<close> is the sum after the
  iterations \<open>k = 0, \<dots>, n - 1\<close>.
\<close>

primrec sum_loop :: "int16_t list \<Rightarrow> nat \<Rightarrow> real" where
  "sum_loop buf 0 = 0"
| "sum_loop buf (Suc k) = sum_loop buf k + real_of_int (sint (buf ! k))"

text \<open>The second loop: the running peaks and the three sums, after \<open>n\<close> iterations.\<close>

record ac_acc =
  v_pk :: real
  i_pk :: real
  sum_rms_v :: real
  sum_rms_i :: real
  sum_p_inst :: real

primrec ac_loop :: "measure_mod \<Rightarrow> real \<Rightarrow> real \<Rightarrow> nat \<Rightarrow> ac_acc" where
  "ac_loop mm v_dc i_dc 0 = \<lparr>v_pk = 0, i_pk = 0, sum_rms_v = 0, sum_rms_i = 0, sum_p_inst = 0\<rparr>"
| "ac_loop mm v_dc i_dc (Suc k) =
     (let a = ac_loop mm v_dc i_dc k;
          v_ac_meas = (real_of_int (sint (v_buf mm ! k)) - v_dc) / 1000;
          v_ac_real = v_ac_meas / VOLT_DRIVER_GAIN;
          i_ac_meas = (real_of_int (sint (i_buf mm ! k)) - i_dc) / 1000;
          i_ac_real = i_ac_meas / ACS712_5A_SENSITIVITY
      in \<lparr>v_pk = (if v_ac_real > v_pk a then v_ac_real else v_pk a),
          i_pk = (if i_ac_real > i_pk a then i_ac_real else i_pk a),
          sum_rms_v = sum_rms_v a + v_ac_real * v_ac_real,
          sum_rms_i = sum_rms_i a + i_ac_real * i_ac_real,
          sum_p_inst = sum_p_inst a + v_ac_real * i_ac_real\<rparr>)"

text \<open>The values of the window before the noise gates: step 3 of the algorithm.\<close>

definition window_v_dc :: "measure_mod \<Rightarrow> real" where
  "window_v_dc mm = sum_loop (v_buf mm) NUM_SAMPLES_ACCUM / real NUM_SAMPLES_ACCUM"

definition window_i_dc :: "measure_mod \<Rightarrow> real" where
  "window_i_dc mm = sum_loop (i_buf mm) NUM_SAMPLES_ACCUM / real NUM_SAMPLES_ACCUM"

definition window_acc :: "measure_mod \<Rightarrow> ac_acc" where
  "window_acc mm = ac_loop mm (window_v_dc mm) (window_i_dc mm) NUM_SAMPLES_ACCUM"

definition window_Vrms :: "measure_mod \<Rightarrow> real" where
  "window_Vrms mm = sqrt (sum_rms_v (window_acc mm) / real NUM_SAMPLES_ACCUM)"

definition window_Irms :: "measure_mod \<Rightarrow> real" where
  "window_Irms mm = sqrt (sum_rms_i (window_acc mm) / real NUM_SAMPLES_ACCUM)"

definition window_P :: "measure_mod \<Rightarrow> real" where
  "window_P mm = sum_p_inst (window_acc mm) / real NUM_SAMPLES_ACCUM"

text \<open>
  The statements of \<^verbatim>\<open>measure_get_results\<close> after the square roots, on the three values
  they start from.
\<close>

definition results_from :: "real \<Rightarrow> real \<Rightarrow> real \<Rightarrow> real \<Rightarrow> real \<Rightarrow> real \<Rightarrow> real \<Rightarrow> measure_t" where
  "results_from v_dc i_dc vpk ipk Vrms0 Irms0 P0 =
     (let (Vrms1, P1) = (if Vrms0 \<le> VOLT_DRIVER_GROUNDNOISE then (0, 0) else (Vrms0, P0));
          (Irms2, P2) = (if Irms0 \<le> ACS712_GROUNDNOISE then (0, 0) else (Irms0, P1));
          S2 = Vrms1 * Irms2;
          fp2 = (if S2 > 1 / 1000000 then \<bar>P2\<bar> / S2 else 0)
      in \<lparr>Vrms = Vrms1,
          VDC = v_dc / 1000,
          Vpk = vpk,
          Irms = (if Irms2 \<le> ACS712_OFFSET then 0 else Irms2 - ACS712_OFFSET),
          IDC = i_dc / 1000,
          Ipk = ipk,
          P = P2,
          S = S2,
          fp = fp2,
          E = P2 * TIME_SAMPLE_H\<rparr>)"

definition measure_get_results :: "measure_mod \<Rightarrow> measure_t" where
  "measure_get_results mm =
     results_from (window_v_dc mm) (window_i_dc mm) (v_pk (window_acc mm)) (i_pk (window_acc mm))
       (window_Vrms mm) (window_Irms mm) (window_P mm)"

subsection \<open>state.h, state.c\<close>

record fail_t =
  FAIL_V :: "bool list"
  FAIL_I :: bool
  FAIL_I_NR :: bool

text \<open>The field \<^verbatim>\<open>output\<close> of \<^verbatim>\<open>state_t\<close> is \<open>outputs\<close> here, \<open>output\<close> being a keyword.\<close>

record state_t =
  measure :: measure_t
  outputs :: "bool list"
  fails :: fail_t

text \<open>
  The calls a function of \<^verbatim>\<open>state.c\<close> makes on the mutex, on the flash wrapper and on the
  log, in program order. The functions return this list next to the new state.
\<close>

datatype event =
  xSemaphoreTake
| xSemaphoreGive
| nvs_save_energy real
| ESP_LOGI

record state_mod =
  state :: state_t
  last_saved_E :: real

definition state_update_measure :: "measure_t \<Rightarrow> state_mod \<Rightarrow> state_mod \<times> event list" where
  "state_update_measure m sm =
     (let st = state sm;
          meas = (measure st)\<lparr>Vrms := Vrms m, VDC := VDC m, Vpk := Vpk m,
                               Irms := Irms m, IDC := IDC m, Ipk := Ipk m,
                               P := P m, S := S m, fp := fp m,
                               E := f32_round (E (measure st) + E m)\<rparr>;
          delta = f64_round (E meas - last_saved_E sm);
          should_save = (delta \<ge> SAVE_ENERGY_THS_KWH);
          sm1 = sm\<lparr>state := st\<lparr>measure := meas\<rparr>,
                   last_saved_E := (if should_save then E meas else last_saved_E sm)\<rparr>
      in (sm1,
          [xSemaphoreTake, xSemaphoreGive] @
          (if should_save then [nvs_save_energy (last_saved_E sm1), ESP_LOGI] else [])))"

definition state_reset_energy :: "state_mod \<Rightarrow> state_mod \<times> event list" where
  "state_reset_energy sm =
     (sm\<lparr>state := (state sm)\<lparr>measure := (measure (state sm))\<lparr>E := 0\<rparr>\<rparr>, last_saved_E := 0\<rparr>,
      [xSemaphoreTake, nvs_save_energy 0, ESP_LOGI, xSemaphoreGive])"

text \<open>
  Whether a list of calls holds an \<^verbatim>\<open>nvs_save_energy\<close> between an \<^verbatim>\<open>xSemaphoreTake\<close> and
  the next \<^verbatim>\<open>xSemaphoreGive\<close>; the first argument tells whether the mutex is held at the
  start.
\<close>

fun saves_while_held :: "bool \<Rightarrow> event list \<Rightarrow> bool" where
  "saves_while_held held [] = False"
| "saves_while_held held (xSemaphoreTake # es) = saves_while_held True es"
| "saves_while_held held (xSemaphoreGive # es) = saves_while_held False es"
| "saves_while_held held (nvs_save_energy x # es) = (held \<or> saves_while_held held es)"
| "saves_while_held held (ESP_LOGI # es) = saves_while_held held es"

record change_detector_t =
  last_sent :: state_t
  last_update_time :: uint32_t

record state_ths_t =
  v_ths :: real
  i_ths :: real
  fp_ths :: real
  e_ths :: real
  tmin_ms :: uint32_t

text \<open>
  The loop of \<^verbatim>\<open>state_change_detector_update\<close>: the pair
  \<open>(is_load_change, is_fail_change)\<close> after \<open>n\<close> iterations, from its initial value.
\<close>

primrec change_loop :: "state_t \<Rightarrow> state_t \<Rightarrow> bool \<times> bool \<Rightarrow> nat \<Rightarrow> bool \<times> bool" where
  "change_loop s sent init 0 = init"
| "change_loop s sent init (Suc i) =
     (let (is_load_change, is_fail_change) = change_loop s sent init i
      in (is_load_change \<or> (outputs s ! i \<noteq> outputs sent ! i),
          is_fail_change \<or> (FAIL_V (fails s) ! i \<noteq> FAIL_V (fails sent) ! i)))"

definition is_val_change_of :: "state_t \<Rightarrow> state_t \<Rightarrow> state_ths_t \<Rightarrow> bool" where
  "is_val_change_of s sent ths =
     (let di = \<bar>Irms (measure s) - Irms (measure sent)\<bar>;
          dv = \<bar>Vrms (measure s) - Vrms (measure sent)\<bar>;
          dp = \<bar>\<bar>fp (measure s)\<bar> - \<bar>fp (measure sent)\<bar>\<bar>;
          de = \<bar>E (measure s) - E (measure sent)\<bar>
      in di > i_ths ths \<or> dv > v_ths ths \<or> dp > fp_ths ths \<or> de > e_ths ths)"

definition state_change_detector_update ::
  "change_detector_t \<Rightarrow> state_t \<Rightarrow> state_ths_t \<Rightarrow> rtos \<Rightarrow> bool \<times> rtos" where
  "state_change_detector_update detector s ths env =
     (if last_update_time detector = 0 then (True, env)
      else let is_val_change = is_val_change_of s (last_sent detector) ths;
               (is_load_change, is_fail_change) =
                  change_loop s (last_sent detector)
                    (False, FAIL_I (fails s) \<noteq> FAIL_I (fails (last_sent detector))) NUM_LOADS;
               (tick, env1) = xTaskGetTickCount env;
               current_time = pdTICKS_TO_MS env tick;
               is_enough_time = (current_time - last_update_time detector \<ge> tmin_ms ths)
           in ((is_val_change \<or> is_load_change \<or> is_fail_change) \<and> is_enough_time, env1))"

definition zero_measure :: measure_t where
  "zero_measure = \<lparr>Vrms = 0, VDC = 0, Vpk = 0, Irms = 0, IDC = 0, Ipk = 0, P = 0, S = 0, fp = 0, E = 0\<rparr>"

definition zero_state :: state_t where
  "zero_state = \<lparr>measure = zero_measure, outputs = replicate NUM_LOADS False,
                 fails = \<lparr>FAIL_V = replicate NUM_LOADS False, FAIL_I = False, FAIL_I_NR = False\<rparr>\<rparr>"

definition state_change_detector_init :: "change_detector_t \<Rightarrow> change_detector_t" where
  "state_change_detector_init detector = detector\<lparr>last_sent := zero_state, last_update_time := 0\<rparr>"

definition state_change_detector_mark_sent :: "change_detector_t \<Rightarrow> state_t \<Rightarrow> rtos \<Rightarrow> change_detector_t \<times> rtos" where
  "state_change_detector_mark_sent detector sent env =
     (let (tick, env1) = xTaskGetTickCount env
      in (detector\<lparr>last_sent := sent, last_update_time := pdTICKS_TO_MS env tick\<rparr>, env1))"

text \<open>
  \<^verbatim>\<open>state_init\<close> with \<^verbatim>\<open>state_set_energy\<close>: the variables are zeroed, then the energy that
  \<^verbatim>\<open>nvs_load_energy\<close> returns (a \<^verbatim>\<open>double\<close>, an argument here) is stored in both places,
  rounded to single precision in \<^verbatim>\<open>state.measure.E\<close>.
\<close>

definition state_set_energy :: "real \<Rightarrow> state_mod \<Rightarrow> state_mod" where
  "state_set_energy energy sm =
     sm\<lparr>state := (state sm)\<lparr>measure := (measure (state sm))\<lparr>E := f32_round energy\<rparr>\<rparr>,
        last_saved_E := energy\<rparr>"

definition state_init :: "real \<Rightarrow> state_mod" where
  "state_init energy = state_set_energy energy \<lparr>state = zero_state, last_saved_E = 0\<rparr>"

subsection \<open>adc\_dma.h, acquisition.c\<close>

text \<open>
  The driver's types are not part of the sources. On the ESP32 a conversion result
  (\<^verbatim>\<open>adc_digi_output_data_t\<close>) is one little-endian 16-bit word whose \<^verbatim>\<open>type1\<close> view
  holds the sample in the low 12 bits and the channel in the high 4, so that
  \<^verbatim>\<open>sizeof(adc_digi_output_data_t)\<close> is 2 (the header of this module counts 512 samples in
  a frame of 1024 bytes). \<^verbatim>\<open>ADC_CHANNEL_4\<close> and \<^verbatim>\<open>ADC_CHANNEL_6\<close> are 4 and 6.
  The calibration of the hardware (\<^verbatim>\<open>adc_cali_raw_to_voltage\<close>) is an argument: \<open>None\<close>
  when it returns an error, the millivolts otherwise.
\<close>

definition FRAME_BYTES :: nat where "FRAME_BYTES = 1024"
definition ADC_MAX_COUNT :: uint32_t where "ADC_MAX_COUNT = 4095"
definition ADC_CH_V :: uint32_t where "ADC_CH_V = 4"
definition ADC_CH_I :: uint32_t where "ADC_CH_I = 6"
definition sizeof_adc_digi_output_data_t :: nat where "sizeof_adc_digi_output_data_t = 2"

type_synonym adc_digi_output_data_t = "16 word"

definition adc_record_at :: "uint8_t list \<Rightarrow> nat \<Rightarrow> adc_digi_output_data_t" where
  "adc_record_at result i = word_of_nat (unat (result ! i) + 256 * unat (result ! (i + 1)))"

definition type1_channel :: "adc_digi_output_data_t \<Rightarrow> uint32_t" where
  "type1_channel r = ucast (drop_bit 12 r)"

definition type1_data :: "adc_digi_output_data_t \<Rightarrow> uint32_t" where
  "type1_data r = ucast (take_bit 12 r)"

datatype esp_err_t = ESP_OK | ESP_ERR_TIMEOUT | ESP_ERR_INVALID_STATE | ESP_FAIL

text \<open>
  The variables of \<^verbatim>\<open>task_adc_acquisition\<close>, the two modules it drives, and \<open>pairs\<close>:
  the arguments of its calls of \<^verbatim>\<open>measure_add_sample\<close> so far, oldest first.
\<close>

record acq_t =
  have_v :: bool
  v_mv :: int
  mv :: int
  measure_results :: measure_t
  meas_mod :: measure_mod
  st_mod :: state_mod
  pairs :: "(int16_t \<times> int16_t) list"
  st_events :: "event list"

definition acq_emit :: "acq_t \<Rightarrow> acq_t" where
  "acq_emit a =
     (let v = (word_of_int (v_mv a) :: int16_t);
          i = (word_of_int (mv a) :: int16_t);
          (closed, mm) = measure_add_sample v i (meas_mod a);
          a1 = a\<lparr>meas_mod := mm, pairs := pairs a @ [(v, i)]\<rparr>
      in if closed
         then (let r = measure_get_results mm;
                   (sm, evs) = state_update_measure r (st_mod a1)
               in a1\<lparr>measure_results := r, st_mod := sm, st_events := st_events a1 @ evs\<rparr>)
         else a1)"

definition acq_record :: "(nat \<Rightarrow> int option) \<Rightarrow> adc_digi_output_data_t \<Rightarrow> acq_t \<Rightarrow> acq_t" where
  "acq_record cali r a =
     (let channel = type1_channel r;
          value = type1_data r AND 0x0FFF
      in if value \<le> ADC_MAX_COUNT
         then (case cali (unat value) of
                 None \<Rightarrow> a\<lparr>have_v := False\<rparr>
               | Some m \<Rightarrow>
                   (let a1 = a\<lparr>mv := m\<rparr>
                    in if channel = ADC_CH_V then a1\<lparr>v_mv := mv a1, have_v := True\<rparr>
                       else if channel = ADC_CH_I
                       then (if \<not> have_v a1 then a1 else (acq_emit a1)\<lparr>have_v := False\<rparr>)
                       else a1))
         else a\<lparr>have_v := False\<rparr>)"

function acq_loop :: "(nat \<Rightarrow> int option) \<Rightarrow> uint8_t list \<Rightarrow> nat \<Rightarrow> nat \<Rightarrow> acq_t \<Rightarrow> acq_t" where
  "acq_loop cali result ret_bytes i a =
     (if i < ret_bytes
      then acq_loop cali result ret_bytes (i + sizeof_adc_digi_output_data_t)
             (acq_record cali (adc_record_at result i) a)
      else a)"
  by pat_completeness auto
termination
  by (relation "Wellfounded.measure (\<lambda>(cali, result, ret_bytes, i, a). ret_bytes - i)")
     (auto simp: sizeof_adc_digi_output_data_t_def)

declare acq_loop.simps [simp del]

text \<open>
  One turn of the \<^verbatim>\<open>while(1)\<close> of \<^verbatim>\<open>task_adc_acquisition\<close>, on what \<^verbatim>\<open>app_adc_dma_read\<close>
  delivered: its return value, the buffer and the byte count.
\<close>

definition acq_frame :: "(nat \<Rightarrow> int option) \<Rightarrow> esp_err_t \<Rightarrow> uint8_t list \<Rightarrow> nat \<Rightarrow> acq_t \<Rightarrow> acq_t" where
  "acq_frame cali ret result ret_bytes a =
     (if ret = ESP_OK
      then (if ret_bytes mod sizeof_adc_digi_output_data_t \<noteq> 0 then a
            else acq_loop cali result ret_bytes 0 a)
      else a)"

subsection \<open>Notions used to state and prove the properties of the priority index\<close>

text \<open>
  The sort key of a load id under a configuration: its priority, then the id itself,
  compared lexicographically.
\<close>

definition load_key :: "sys_load_cfg_t \<Rightarrow> uint8_t \<Rightarrow> uint8_t \<times> uint8_t" where
  "load_key cfg x = (priority (load cfg ! unat x), x)"

text \<open>The body of the inner loop, on its own: one conditional exchange.\<close>

definition exchange :: "sys_load_cfg_t \<Rightarrow> nat \<Rightarrow> nat \<Rightarrow> uint8_t list \<Rightarrow> uint8_t list" where
  "exchange cfg i j idx = (if swap_wanted cfg idx i j then idx[i := idx ! j, j := idx ! i] else idx)"

text \<open>
  The invariant of the outer loop: every position before \<open>i\<close> holds a key that is at most
  the key of every later position.
\<close>

definition settled :: "sys_load_cfg_t \<Rightarrow> nat \<Rightarrow> uint8_t list \<Rightarrow> bool" where
  "settled cfg i idx \<longleftrightarrow>
     (\<forall>a b. a < i \<and> a < b \<and> b < NUM_LOADS \<longrightarrow> load_key cfg (idx ! a) \<le> load_key cfg (idx ! b))"

text \<open>
  What a rebuilt index is: the ids \<open>0, \<dots>, NUM_LOADS - 1\<close> in some order, with strictly
  increasing keys.
\<close>

definition priority_index_ok :: "control_t \<Rightarrow> bool" where
  "priority_index_ok c \<longleftrightarrow>
     mset (map unat (priority_index c)) = mset [0..<NUM_LOADS] \<and>
     sorted_wrt (<) (map (load_key (s_cfg c)) (priority_index c))"

section \<open>Concrete states and inputs\<close>

text \<open>
  \<open>control_default\<close> is the module after \<^verbatim>\<open>control_reset\<close> on the zero-initialised
  variables. The states named after it are reached from it by the calls shown.
\<close>

definition timer_zero :: sys_timer_t where
  "timer_zero = \<lparr>start_tick = 0, timeout_ms = 0, active = False\<rparr>"

definition control_boot :: control_t where
  "control_boot =
     \<lparr>ctrl_mode = CTRL_MODE_AUTO, load_state = replicate NUM_LOADS False,
      s_cfg = \<lparr>imax = 0, load = replicate NUM_LOADS \<lparr>v_min = 0, v_max = 0, auto_rec = False, priority = 0\<rparr>\<rparr>,
      priority_index = replicate NUM_LOADS 0, imax_fail = False, v_fail = replicate NUM_LOADS False,
      imax_repetitive = False, control_global_state = CONTROL_GLOBAL_OK,
      control_state = replicate NUM_LOADS CONTROL_INDIV_ON,
      timer_global_rec = timer_zero, timer_cont_fails_i = timer_zero,
      timer_load_rec = replicate NUM_LOADS timer_zero, cont_fails_i = 0, imax_ths = False\<rparr>"

definition default_load :: "uint8_t \<Rightarrow> load_cfg_t" where
  "default_load pr = \<lparr>v_min = 200, v_max = 250, auto_rec = True, priority = pr\<rparr>"

definition control_default :: control_t where
  "control_default =
     \<lparr>ctrl_mode = CTRL_MODE_AUTO, load_state = [False, False, False, False],
      s_cfg = \<lparr>imax = 5, load = [default_load 0, default_load 1, default_load 2, default_load 3]\<rparr>,
      priority_index = [0, 1, 2, 3], imax_fail = False, v_fail = [False, False, False, False],
      imax_repetitive = False, control_global_state = CONTROL_GLOBAL_OK,
      control_state = [CONTROL_INDIV_OFF, CONTROL_INDIV_OFF, CONTROL_INDIV_OFF, CONTROL_INDIV_OFF],
      timer_global_rec = timer_zero, timer_cont_fails_i = timer_zero,
      timer_load_rec = [timer_zero, timer_zero, timer_zero, timer_zero], cont_fails_i = 0, imax_ths = False\<rparr>"

text \<open>
  A tick rate of 1000 Hz; the first reading of the tick counter is 10, the later ones 6000.
  With it: one call with 6 A (trip, \<open>OK\<close> to \<open>FAIL_I\<close>), then one call with 2 A
  (\<open>FAIL_I\<close> to \<open>REC\<close>, the recovery timer started at tick 10).
\<close>

definition env_trip :: rtos where
  "env_trip = \<lparr>configTICK_RATE_HZ = 1000, tick_reads = (\<lambda>k. if k = 0 then 10 else 6000)\<rparr>"

definition control_in_fail_i :: control_t where
  "control_in_fail_i = fst (snd (control_global_fsm 6 control_default env_trip))"

definition control_in_rec :: control_t where
  "control_in_rec = fst (snd (control_global_fsm 2 control_in_fail_i env_trip))"

definition env_in_rec :: rtos where
  "env_in_rec = snd (snd (control_global_fsm 2 control_in_fail_i env_trip))"

text \<open>
  Load 0 with \<^verbatim>\<open>v_min\<close> set to 210 V (\<^verbatim>\<open>v_max\<close> stays 250 V), then one call of its FSM
  with 180 V, which takes it from \<open>OFF\<close> to \<open>FAIL_V\<close>.
\<close>

definition control_vmin210 :: control_t where
  "control_vmin210 = snd (control_set_load_vmin 0 210 control_default)"

definition control_in_fail_v :: control_t where
  "control_in_fail_v = fst (snd (control_indiv_fsm 0 180 control_vmin210 env_trip))"

text \<open>Load 1 with both voltage bounds disabled.\<close>

definition control_disabled1 :: control_t where
  "control_disabled1 = snd (control_set_load_vmax 1 (-1) (snd (control_set_load_vmin 1 (-1) control_default)))"

text \<open>
  A window with 230 V, 8 A and an active power of \<open>-1800\<close> W (current against the
  voltage), as \<^verbatim>\<open>measure_get_results\<close> finishes it; and the module after start-up with no
  stored energy.
\<close>

definition measure_reverse :: measure_t where
  "measure_reverse = results_from 0 0 0 0 230 8 (- 1800)"

text \<open>
  Two windows at 230 V and 10 A whose energy is a number of the single-precision format:
  2250 W consumed (\<open>1/8\<close> kWh in the units of the source), and 2250 W generated.
\<close>

definition measure_import :: measure_t where
  "measure_import = results_from 0 0 0 0 230 10 2250"

definition measure_export :: measure_t where
  "measure_export = results_from 0 0 0 0 230 10 (- 2250)"

definition state_boot :: state_mod where
  "state_boot = state_init 0"

text \<open>
  The thresholds of the communication tasks; a detector after
  \<^verbatim>\<open>state_change_detector_init\<close>; the same detector after one
  \<^verbatim>\<open>state_change_detector_mark_sent\<close> of the zero state at 100 ms, with the clock that
  remains (it reads 1100 ms next); and a state that differs from the zero state in the
  output of load 0.
\<close>

definition ths_default :: state_ths_t where
  "ths_default = \<lparr>v_ths = 2, i_ths = 0, fp_ths = 2 / 100, e_ths = 1, tmin_ms = 500\<rparr>"

definition detector_fresh :: change_detector_t where
  "detector_fresh = state_change_detector_init \<lparr>last_sent = zero_state, last_update_time = 77\<rparr>"

definition env_early :: rtos where
  "env_early = \<lparr>configTICK_RATE_HZ = 1000, tick_reads = (\<lambda>k. 100 + 1000 * of_nat k)\<rparr>"

definition detector_sent :: change_detector_t where
  "detector_sent = fst (state_change_detector_mark_sent detector_fresh zero_state env_early)"

definition env_later :: rtos where
  "env_later = snd (state_change_detector_mark_sent detector_fresh zero_state env_early)"

definition state_load0_on :: state_t where
  "state_load0_on = zero_state\<lparr>outputs := [True, False, False, False]\<rparr>"

text \<open>The measurement module with a window of 4000 pairs that are all 0 mV.\<close>

definition measure_flat :: measure_mod where
  "measure_flat =
     \<lparr>v_buf = replicate NUM_SAMPLES_ACCUM 0, i_buf = replicate NUM_SAMPLES_ACCUM 0, sample_index = 0\<rparr>"

text \<open>
  The acquisition task at start-up; a calibration that fails on the raw count 4095 and
  maps every other count to as many millivolts; three buffers. \<open>frame_pair\<close> holds a
  V-sample (channel 4, count \<open>0x123\<close>) followed by an I-sample (channel 6, count
  \<open>0x456\<close>); \<open>frame_gap\<close> holds a V-sample, a V-sample of count 4095, and an I-sample.
\<close>

definition acq_boot :: acq_t where
  "acq_boot =
     \<lparr>have_v = False, v_mv = 0, mv = 0, measure_results = zero_measure, meas_mod = measure_flat,
      st_mod = state_boot, pairs = [], st_events = []\<rparr>"

definition cali_test :: "nat \<Rightarrow> int option" where
  "cali_test raw = (if raw = 4095 then None else Some (int raw))"

definition frame_pair :: "uint8_t list" where
  "frame_pair = [0x23, 0x41, 0x56, 0x64]"

definition frame_gap :: "uint8_t list" where
  "frame_gap = [0x23, 0x41, 0xFF, 0x4F, 0x56, 0x64]"

text \<open>The defaults with the priority of load 0 set to 2, which ties it with load 2.\<close>

definition control_prio2 :: control_t where
  "control_prio2 = snd (control_set_load_priority 0 2 control_default)"

section \<open>Properties\<close>

subsection \<open>The concrete states\<close>

lemmas global_fsm_defs =
  control_global_fsm_def update_imax_ths_def global_case_ok_def global_case_fail_i_def
  global_case_rec_def global_case_man_rec_def timer_start_def timer_expired_def timer_stop_def
  xTaskGetTickCount_def pdTICKS_TO_MS_def

lemma control_reset_boot: "control_reset control_boot = control_default"
  by (simp add: control_reset_def control_boot_def control_default_def control_global_fsm_init_def
      control_indiv_fsm_init_def upd_load_def NUM_LOADS_def timer_zero_def default_load_def
      DEFAULT_IMAX_def DEFAULT_VMIN_def DEFAULT_VMAX_def DEFAULT_AUTO_REC_def numeral_eq_Suc)

lemma control_in_fail_i_eq:
  "control_in_fail_i =
     control_default\<lparr>imax_ths := True, control_global_state := CONTROL_GLOBAL_FAIL_I,
                     imax_fail := True, cont_fails_i := 1\<rparr>"
  by (simp add: control_in_fail_i_def control_default_def global_fsm_defs env_trip_def timer_zero_def)

lemma control_in_rec_eq:
  "control_in_rec =
     control_default\<lparr>control_global_state := CONTROL_GLOBAL_REC, cont_fails_i := 1,
                     timer_global_rec := \<lparr>start_tick = 10, timeout_ms = 5000, active = True\<rparr>\<rparr>"
  by (simp add: control_in_rec_def control_in_fail_i_eq control_default_def global_fsm_defs
      env_trip_def timer_zero_def IMAX_HYST_PRC_def MAX_FAIL_I_def CONTROL_REC_I_TIME_MS_def)

lemma env_in_rec_eq: "env_in_rec = \<lparr>configTICK_RATE_HZ = 1000, tick_reads = (\<lambda>k. 6000)\<rparr>"
  by (simp add: env_in_rec_def control_in_fail_i_eq control_default_def global_fsm_defs
      env_trip_def timer_zero_def IMAX_HYST_PRC_def MAX_FAIL_I_def CONTROL_REC_I_TIME_MS_def)

subsection \<open>C1: the verdict of the global FSM\<close>

text \<open>
  C1: for every call of \<^verbatim>\<open>control_global_fsm\<close>, every current \<open>I\<close> and every reading of the
  clock, the call returns true only in state \<open>OK\<close>: it returns true exactly when the state
  the FSM is in when the call returns is \<open>OK\<close>, and so returns false whenever that state is
  \<open>FAIL_I\<close>, \<open>REC\<close> or \<open>MAN_REC\<close>. In terms of the state that the call finds: from
  \<open>FAIL_I\<close> and from \<open>MAN_REC\<close> it returns false; from \<open>REC\<close> it returns false unless the
  trip signal (after its update with \<open>I\<close>) is clear and the recovery timer has expired,
  which is the transition to \<open>OK\<close> that the specification gives the FSM in \<open>REC\<close>, and the
  one call from \<open>REC\<close> that returns true.
\<close>

theorem control_global_fsm_verdict:
  "case control_global_fsm I c env of (ret, c', env') \<Rightarrow>
     (ret \<longleftrightarrow> control_global_state c' = CONTROL_GLOBAL_OK) \<and>
     (control_global_state c = CONTROL_GLOBAL_FAIL_I \<or>
      control_global_state c = CONTROL_GLOBAL_MAN_REC \<longrightarrow> \<not> ret) \<and>
     (control_global_state c = CONTROL_GLOBAL_REC \<longrightarrow>
        (ret \<longleftrightarrow> \<not> imax_ths (update_imax_ths I c) \<and>
                fst (timer_expired (timer_global_rec c) env)))"
  by (auto simp: control_global_fsm_def update_imax_ths_def global_case_ok_def
      global_case_fail_i_def global_case_rec_def global_case_man_rec_def Let_def timer_start_def
      xTaskGetTickCount_def
      split: control_global_fsm_t.splits if_splits prod.splits)

theorem control_global_fsm_verdict_witness:
  "control_global_state control_in_fail_i = CONTROL_GLOBAL_FAIL_I \<and>
   \<not> fst (control_global_fsm 2 control_in_fail_i env_trip) \<and>
   control_global_state control_in_rec = CONTROL_GLOBAL_REC \<and>
   fst (control_global_fsm 2 control_in_rec env_in_rec) \<and>
   control_global_state (fst (snd (control_global_fsm 2 control_in_rec env_in_rec))) = CONTROL_GLOBAL_OK"
  using control_global_fsm_verdict [where I = 2 and c = control_in_fail_i and env = env_trip]
        control_global_fsm_verdict [where I = 2 and c = control_in_rec and env = env_in_rec]
  by (simp add: control_in_rec_eq env_in_rec_eq control_in_fail_i_eq control_default_def
      global_fsm_defs timer_zero_def IMAX_HYST_PRC_def MAX_FAIL_I_def CONTROL_REC_I_TIME_MS_def
      env_trip_def split: prod.splits)

subsection \<open>C5: hysteresis of the per-load FSM\<close>

text \<open>
  What the stored thresholds are: the lower one is the product rounded down to a whole
  volt, the upper one never exceeds the product.
\<close>

lemma sint_vmin_hyst_of:
  "0 \<le> sint vmin \<Longrightarrow> sint (vmin_hyst_of vmin) = \<lfloor>real_of_int (sint vmin) * (1 - VRANGE_HYST_PRC / 100)\<rfloor>"
proof -
  assume nn: "0 \<le> sint vmin"
  let ?x = "real_of_int (sint vmin) * (1 - VRANGE_HYST_PRC / 100)"
  have up: "sint vmin < 2 ^ 15" using sint_lt [of vmin] by simp
  have x0: "0 \<le> ?x" using nn by (simp add: VRANGE_HYST_PRC_def del: of_int_sint)
  have xle: "?x \<le> real_of_int (sint vmin)" using nn by (simp add: VRANGE_HYST_PRC_def del: of_int_sint)
  have f0: "0 \<le> \<lfloor>?x\<rfloor>" using x0 by simp
  have "\<lfloor>?x\<rfloor> \<le> sint vmin" using xle by (simp add: floor_le_iff del: of_int_sint) 
  then have f1: "\<lfloor>?x\<rfloor> < 2 ^ 15" using up by linarith
  have "sint (word_of_int \<lfloor>?x\<rfloor> :: 16 word) = \<lfloor>?x\<rfloor>"
    using f0 f1 by (simp add: sint_sbintrunc' signed_take_bit_int_eq_self)
  then show ?thesis using nn x0 by (simp add: vmin_hyst_of_def float_to_int16_def int16_to_float_def del: of_int_sint)
qed

lemma sint_vmax_hyst_of:
  "0 \<le> sint vmax \<Longrightarrow> real_of_int (sint (vmax_hyst_of vmax)) \<le> real_of_int (sint vmax) * (1 + VRANGE_HYST_PRC / 100)"
proof -
  assume nn: "0 \<le> sint vmax"
  let ?x = "real_of_int (sint vmax) * (1 + VRANGE_HYST_PRC / 100)"
  have x0: "0 \<le> ?x" using nn by (simp add: VRANGE_HYST_PRC_def del: of_int_sint)
  have f0: "0 \<le> \<lfloor>?x\<rfloor>" using x0 by simp
  have "sint (word_of_int \<lfloor>?x\<rfloor> :: 16 word) = signed_take_bit 15 \<lfloor>?x\<rfloor>"
    by (simp add: sint_sbintrunc')
  also have "\<dots> \<le> \<lfloor>?x\<rfloor>" using f0 by (simp add: signed_take_bit_int_less_eq_self_iff)
  finally have "real_of_int (sint (word_of_int \<lfloor>?x\<rfloor> :: 16 word)) \<le> ?x" by linarith
  then show ?thesis using nn x0 by (simp add: vmax_hyst_of_def float_to_int16_def int16_to_float_def del: of_int_sint)
qed

lemmas indiv_fsm_defs =
  control_indiv_fsm_def indiv_case_on_def indiv_case_off_def indiv_case_fail_v_def
  v_out_range_of_def timer_start_def timer_expired_def timer_stop_def
  xTaskGetTickCount_def pdTICKS_TO_MS_def

lemma control_vmin210_eq:
  "control_vmin210 = control_default\<lparr>s_cfg := \<lparr>imax = 5, load = [(default_load 0)\<lparr>v_min := 210\<rparr>, default_load 1, default_load 2, default_load 3]\<rparr>\<rparr>"
  by (simp add: control_vmin210_def control_set_load_vmin_def control_default_def upd_load_def NUM_LOADS_def)

lemma control_in_fail_v_eq:
  "control_in_fail_v = control_vmin210\<lparr>control_state := [CONTROL_INDIV_FAIL_V, CONTROL_INDIV_OFF, CONTROL_INDIV_OFF, CONTROL_INDIV_OFF],
      v_fail := [True, False, False, False]\<rparr>"
  by (simp add: control_in_fail_v_def control_vmin210_eq control_default_def indiv_fsm_defs default_load_def timer_zero_def)

lemma vmin_hyst_210: "vmin_hyst_of 210 = 199"
  by (simp add: vmin_hyst_of_def float_to_int16_def int16_to_float_def VRANGE_HYST_PRC_def)

lemma vmax_hyst_250: "vmax_hyst_of 250 = 262"
  by (simp add: vmax_hyst_of_def float_to_int16_def int16_to_float_def VRANGE_HYST_PRC_def)

text \<open>
  C5, as stated, fails on the lower side: the widened threshold is stored in an
  \<^verbatim>\<open>int16_t\<close>, so for \<^verbatim>\<open>v_min = 210\<close> it is 199 and not 199.5. Load 0 is in \<open>FAIL_V\<close> with
  \<^verbatim>\<open>v_fail[0]\<close> set; a call with 199 V takes it to \<open>OFF\<close>, although 199 is below
  \<open>210 \<cdot> (1 - 5/100)\<close>.
\<close>

theorem control_indiv_fsm_hyst_counterexample:
  "control_state control_in_fail_v ! 0 = CONTROL_INDIV_FAIL_V \<and>
   v_fail control_in_fail_v ! 0 \<and>
   0 \<le> sint (v_min (load (s_cfg control_in_fail_v) ! 0)) \<and>
   control_state (fst (snd (control_indiv_fsm 0 199 control_in_fail_v env_trip))) ! 0 = CONTROL_INDIV_OFF \<and>
   \<not> (real_of_int (sint (199 :: int16_t)) \<ge>
        real_of_int (sint (v_min (load (s_cfg control_in_fail_v) ! 0))) * (1 - VRANGE_HYST_PRC / 100))"
  by (simp add: control_in_fail_v_eq control_vmin210_eq control_default_def indiv_fsm_defs default_load_def timer_zero_def
      vmin_hyst_210 vmax_hyst_250 VRANGE_HYST_PRC_def env_trip_def)

text \<open>The two transitions in terms of the out-of-range predicate of the source.\<close>

lemma indiv_leaves_fail_v:
  assumes "unat id' < length (control_state c)"
    and "control_state c ! unat id' = CONTROL_INDIV_FAIL_V"
  shows "control_state (fst (snd (control_indiv_fsm id' vrms c env))) ! unat id' \<noteq> CONTROL_INDIV_FAIL_V
         \<longleftrightarrow> \<not> v_out_range_of (v_fail c ! unat id') (v_min (load (s_cfg c) ! unat id'))
                    (v_max (load (s_cfg c) ! unat id')) vrms"
  using assms
  by (simp add: control_indiv_fsm_def indiv_case_fail_v_def Let_def timer_start_def xTaskGetTickCount_def
      split: prod.splits)

lemma indiv_enters_fail_v:
  assumes "unat id' < length (control_state c)"
    and "control_state c ! unat id' \<noteq> CONTROL_INDIV_FAIL_V"
  shows "control_state (fst (snd (control_indiv_fsm id' vrms c env))) ! unat id' = CONTROL_INDIV_FAIL_V
         \<longleftrightarrow> v_out_range_of (v_fail c ! unat id') (v_min (load (s_cfg c) ! unat id'))
                    (v_max (load (s_cfg c) ! unat id')) vrms"
  using assms
  by (cases "control_state c ! unat id'")
     (simp_all add: control_indiv_fsm_def indiv_case_on_def indiv_case_off_def Let_def timer_start_def
      timer_expired_def xTaskGetTickCount_def split: prod.splits)

text \<open>
  C5, amended: for every load \<open>i\<close>, every \<open>vrms\<close> and every state of the module, a call
  that finds load \<open>i\<close> in \<open>FAIL_V\<close> with \<^verbatim>\<open>v_fail[i]\<close> set leaves \<open>FAIL_V\<close> only when
  \<open>vrms\<close> is at least \<open>v_min \<cdot> (1 - HYST_V%)\<close> rounded down to a whole volt (when
  \<open>v_min \<ge> 0\<close>) and at most \<open>v_max \<cdot> (1 + HYST_V%)\<close> (when \<open>v_max \<ge> 0\<close>); a call that finds
  it in \<open>ON\<close> or \<open>OFF\<close> with \<^verbatim>\<open>v_fail[i]\<close> clear enters \<open>FAIL_V\<close> only when \<open>vrms < v_min\<close>
  with \<open>v_min \<ge> 0\<close>, or \<open>vrms > v_max\<close> with \<open>v_max \<ge> 0\<close>.
\<close>

theorem control_indiv_fsm_hysteresis:
  assumes "unat id' < length (control_state c)"
  shows
    "let i = unat id';
         vmin = sint (v_min (load (s_cfg c) ! i));
         vmax = sint (v_max (load (s_cfg c) ! i));
         c' = fst (snd (control_indiv_fsm id' vrms c env))
     in (control_state c ! i = CONTROL_INDIV_FAIL_V \<and> v_fail c ! i \<and>
         control_state c' ! i \<noteq> CONTROL_INDIV_FAIL_V \<longrightarrow>
           (0 \<le> vmin \<longrightarrow> \<lfloor>real_of_int vmin * (1 - VRANGE_HYST_PRC / 100)\<rfloor> \<le> sint vrms) \<and>
           (0 \<le> vmax \<longrightarrow> real_of_int (sint vrms) \<le> real_of_int vmax * (1 + VRANGE_HYST_PRC / 100))) \<and>
        (control_state c ! i \<noteq> CONTROL_INDIV_FAIL_V \<and> \<not> v_fail c ! i \<and>
         control_state c' ! i = CONTROL_INDIV_FAIL_V \<longrightarrow>
           (sint vrms < vmin \<and> 0 \<le> vmin) \<or> (sint vrms > vmax \<and> 0 \<le> vmax))"
proof -
  let ?i = "unat id'"
  let ?vmin = "v_min (load (s_cfg c) ! ?i)"
  let ?vmax = "v_max (load (s_cfg c) ! ?i)"
  let ?c' = "fst (snd (control_indiv_fsm id' vrms c env))"
  have leave: "(0 \<le> sint ?vmin \<longrightarrow> \<lfloor>real_of_int (sint ?vmin) * (1 - VRANGE_HYST_PRC / 100)\<rfloor> \<le> sint vrms) \<and>
           (0 \<le> sint ?vmax \<longrightarrow> real_of_int (sint vrms) \<le> real_of_int (sint ?vmax) * (1 + VRANGE_HYST_PRC / 100))"
    if st: "control_state c ! ?i = CONTROL_INDIV_FAIL_V" and vf: "v_fail c ! ?i"
      and out: "control_state ?c' ! ?i \<noteq> CONTROL_INDIV_FAIL_V"
  proof -
    from indiv_leaves_fail_v [OF assms st, of vrms env] out vf
    have nr: "\<not> v_out_range_of True ?vmin ?vmax vrms" by simp
    have lo: "\<lfloor>real_of_int (sint ?vmin) * (1 - VRANGE_HYST_PRC / 100)\<rfloor> \<le> sint vrms" if "0 \<le> sint ?vmin"
      using nr that sint_vmin_hyst_of [OF that] by (simp add: v_out_range_of_def)
    have hi: "real_of_int (sint vrms) \<le> real_of_int (sint ?vmax) * (1 + VRANGE_HYST_PRC / 100)" if "0 \<le> sint ?vmax"
    proof -
      from nr that have "sint vrms \<le> sint (vmax_hyst_of ?vmax)" by (simp add: v_out_range_of_def)
      then have "real_of_int (sint vrms) \<le> real_of_int (sint (vmax_hyst_of ?vmax))" by linarith
      with sint_vmax_hyst_of [OF that] show ?thesis by linarith
    qed
    from lo hi show ?thesis by blast
  qed
  have enter: "(sint vrms < sint ?vmin \<and> 0 \<le> sint ?vmin) \<or> (sint vrms > sint ?vmax \<and> 0 \<le> sint ?vmax)"
    if st: "control_state c ! ?i \<noteq> CONTROL_INDIV_FAIL_V" and vf: "\<not> v_fail c ! ?i"
      and inn: "control_state ?c' ! ?i = CONTROL_INDIV_FAIL_V"
    using indiv_enters_fail_v [OF assms st, of vrms env] inn vf by (simp add: v_out_range_of_def)
  from leave enter show ?thesis unfolding Let_def by blast
qed

theorem control_indiv_fsm_hysteresis_witness:
  "control_state control_in_fail_v ! 0 = CONTROL_INDIV_FAIL_V \<and> v_fail control_in_fail_v ! 0 \<and>
   control_state (fst (snd (control_indiv_fsm 0 199 control_in_fail_v env_trip))) ! 0 = CONTROL_INDIV_OFF \<and>
   \<lfloor>real_of_int 210 * (1 - VRANGE_HYST_PRC / 100)\<rfloor> \<le> sint (199 :: int16_t) \<and>
   real_of_int (sint (199 :: int16_t)) \<le> real_of_int 250 * (1 + VRANGE_HYST_PRC / 100) \<and>
   control_state control_vmin210 ! 0 = CONTROL_INDIV_OFF \<and> \<not> v_fail control_vmin210 ! 0 \<and>
   control_state (fst (snd (control_indiv_fsm 0 180 control_vmin210 env_trip))) ! 0 = CONTROL_INDIV_FAIL_V \<and>
   sint (180 :: int16_t) < 210"
  using control_indiv_fsm_hysteresis [where id' = 0 and c = control_in_fail_v and vrms = 199 and env = env_trip]
        control_indiv_fsm_hysteresis [where id' = 0 and c = control_vmin210 and vrms = 180 and env = env_trip]
  by (simp add: control_in_fail_v_eq control_vmin210_eq control_default_def indiv_fsm_defs default_load_def timer_zero_def
      vmin_hyst_210 vmax_hyst_250 VRANGE_HYST_PRC_def env_trip_def)

subsection \<open>C10: the getters of the voltage bounds\<close>

lemma control_disabled1_eq:
  "control_disabled1 =
     control_default\<lparr>s_cfg := \<lparr>imax = 5,
        load = [default_load 0, (default_load 1)\<lparr>v_min := -1, v_max := -1\<rparr>, default_load 2, default_load 3]\<rparr>\<rparr>"
  by (simp add: control_disabled1_def control_set_load_vmin_def control_set_load_vmax_def
      control_default_def upd_load_def NUM_LOADS_def)

text \<open>
  C10: for every id that is not below \<^verbatim>\<open>NUM_LOADS\<close> the two getters return \<open>-1\<close>, and
  for every valid id they return the stored bound; so a valid load \<open>j\<close> whose bound is
  disabled (\<open>-1\<close>) and an invalid id give the same answer. The getters return a value
  only: the configuration is an argument they do not return.
\<close>

theorem control_get_v_bounds:
  "(unat id' \<ge> NUM_LOADS \<longrightarrow> control_get_v_min id' c = -1 \<and> control_get_v_max id' c = -1) \<and>
   (unat id' < NUM_LOADS \<longrightarrow>
      control_get_v_min id' c = v_min (load (s_cfg c) ! unat id') \<and>
      control_get_v_max id' c = v_max (load (s_cfg c) ! unat id')) \<and>
   (unat id' \<ge> NUM_LOADS \<and> unat j < NUM_LOADS \<and> v_min (load (s_cfg c) ! unat j) = -1 \<longrightarrow>
      control_get_v_min j c = control_get_v_min id' c) \<and>
   (unat id' \<ge> NUM_LOADS \<and> unat j < NUM_LOADS \<and> v_max (load (s_cfg c) ! unat j) = -1 \<longrightarrow>
      control_get_v_max j c = control_get_v_max id' c)"
  by (simp add: control_get_v_min_def control_get_v_max_def)

theorem control_get_v_bounds_witness:
  "unat (4 :: uint8_t) \<ge> NUM_LOADS \<and> unat (1 :: uint8_t) < NUM_LOADS \<and> unat (0 :: uint8_t) < NUM_LOADS \<and>
   control_get_v_min 4 control_disabled1 = -1 \<and> control_get_v_max 4 control_disabled1 = -1 \<and>
   control_get_v_min 1 control_disabled1 = control_get_v_min 4 control_disabled1 \<and>
   control_get_v_max 1 control_disabled1 = control_get_v_max 4 control_disabled1 \<and>
   control_get_v_min 0 control_disabled1 = 200 \<and> control_get_v_max 0 control_disabled1 = 250"
  using control_get_v_bounds [where id' = 4 and j = 1 and c = control_disabled1]
        control_get_v_bounds [where id' = 0 and j = 1 and c = control_disabled1]
  by (simp add: control_disabled1_eq control_default_def default_load_def NUM_LOADS_def)

subsection \<open>C3: the relation between the two voltage bounds\<close>

lemma vrange_ok_upd:
  assumes "cfg_vrange_ok c" "vrange_ok (f (load (s_cfg c) ! i))"
  shows "cfg_vrange_ok (upd_load i f c)"
proof -
  have "vrange_ok ((load (s_cfg c))[i := f (load (s_cfg c) ! i)] ! n)"
    if "n < length (load (s_cfg c))" for n
    using assms that by (cases "n = i") (simp_all add: cfg_vrange_ok_def list_all_length)
  then show ?thesis by (simp add: cfg_vrange_ok_def upd_load_def list_all_length)
qed

lemma uart_cfg_vmax_set_keeps_vrange:
  "cfg_vrange_ok c \<Longrightarrow> cfg_vrange_ok (snd (uart_cfg_vmax_set id' v c))"
  by (auto simp: uart_cfg_vmax_set_def control_set_load_vmax_def control_get_v_min_def vrange_ok_def
      intro!: vrange_ok_upd)

lemma uart_cfg_vmin_set_keeps_vrange:
  "cfg_vrange_ok c \<Longrightarrow> cfg_vrange_ok (snd (uart_cfg_vmin_set id' v c))"
  by (auto simp: uart_cfg_vmin_set_def control_set_load_vmin_def control_get_v_max_def vrange_ok_def
      intro!: vrange_ok_upd)

text \<open>
  The handler of the network command writes both bounds as they come: from the defaults,
  \<^verbatim>\<open>CFG_VRANGE_SET\<close> with \<^verbatim>\<open>vmin = 300\<close>, \<^verbatim>\<open>vmax = 250\<close> leaves load 0 with
  \<open>v_min > v_max\<close>.
\<close>

lemma iot_cfg_vrange_set_unchecked:
  "\<not> cfg_vrange_ok (iot_cfg_vrange_set 0 300 250 control_default)"
  by (simp add: cfg_vrange_ok_def control_default_def default_load_def vrange_ok_def
      iot_cfg_vrange_set_def control_set_load_vmin_def control_set_load_vmax_def upd_load_def
      NUM_LOADS_def)

text \<open>
  C3, as stated, fails: \<^verbatim>\<open>control_set_load_vmin\<close> compares nothing. On the default
  configuration (200 V, 250 V) it accepts 300 V for load 0 and returns true; load 0 then
  has both bounds non-negative and \<open>v_min > v_max\<close>.
\<close>

theorem control_set_load_vmin_counterexample:
  "cfg_vrange_ok control_default \<and>
   fst (control_set_load_vmin 0 300 control_default) \<and>
   \<not> cfg_vrange_ok (snd (control_set_load_vmin 0 300 control_default))"
  by (simp add: cfg_vrange_ok_def control_default_def default_load_def vrange_ok_def
      control_set_load_vmin_def upd_load_def NUM_LOADS_def)

text \<open>
  C3, amended: for a valid id the two setters store the bound they are given and return
  true, whatever the other bound is; for an invalid id they return false and change
  nothing. The relation \<open>v_max > v_min\<close> (for a load whose two bounds are both \<open>\<ge> 0\<close>) is
  enforced by the serial command handler, which checks the new value against the other
  bound before it calls the setter: a configuration that satisfies the relation for every
  load satisfies it after \<^verbatim>\<open>CFG VMIN SET\<close> and after \<^verbatim>\<open>CFG VMAX SET\<close>, for every id and
  every value.
\<close>

theorem config_write_vrange:
  "(unat id' < NUM_LOADS \<longrightarrow>
      control_set_load_vmin id' v c = (True, upd_load (unat id') (\<lambda>l. l\<lparr>v_min := v\<rparr>) c) \<and>
      control_set_load_vmax id' v c = (True, upd_load (unat id') (\<lambda>l. l\<lparr>v_max := v\<rparr>) c)) \<and>
   (unat id' \<ge> NUM_LOADS \<longrightarrow>
      control_set_load_vmin id' v c = (False, c) \<and> control_set_load_vmax id' v c = (False, c)) \<and>
   (cfg_vrange_ok c \<longrightarrow>
      cfg_vrange_ok (snd (uart_cfg_vmin_set id' v c)) \<and>
      cfg_vrange_ok (snd (uart_cfg_vmax_set id' v c)))"
  by (simp add: uart_cfg_vmin_set_keeps_vrange uart_cfg_vmax_set_keeps_vrange
      control_set_load_vmin_def control_set_load_vmax_def)

theorem config_write_vrange_witness:
  "unat (0 :: uint8_t) < NUM_LOADS \<and> unat (4 :: uint8_t) \<ge> NUM_LOADS \<and>
   cfg_vrange_ok control_default \<and>
   control_set_load_vmin 4 300 control_default = (False, control_default) \<and>
   uart_cfg_vmin_set 0 300 control_default = (send_error ''VALOR_INVALIDO'', control_default) \<and>
   fst (uart_cfg_vmin_set 0 220 control_default) = send_ok ''VMIN_SETEADO'' \<and>
   v_min (load (s_cfg (snd (uart_cfg_vmin_set 0 220 control_default))) ! 0) = 220 \<and>
   cfg_vrange_ok (snd (uart_cfg_vmin_set 0 220 control_default)) \<and>
   cfg_vrange_ok (snd (uart_cfg_vmax_set 0 220 control_default))"
  using config_write_vrange [where id' = 0 and v = 220 and c = control_default]
        config_write_vrange [where id' = 4 and v = 300 and c = control_default]
  by (simp add: cfg_vrange_ok_def control_default_def default_load_def vrange_ok_def
      uart_cfg_vmin_set_def uart_cfg_vmax_set_def control_get_v_max_def control_get_v_min_def
      control_set_load_vmin_def control_set_load_vmax_def upd_load_def NUM_LOADS_def)

subsection \<open>Rounding to nearest\<close>

text \<open>Rounding a real number to an integer, ties to even: bounds and monotonicity.\<close>

lemma round_half_even_cases:
  "round_half_even t = \<lfloor>t\<rfloor> \<or> round_half_even t = \<lfloor>t\<rfloor> + 1"
  by (simp add: round_half_even_def Let_def)

lemma round_half_even_of_int [simp]: "round_half_even (of_int k) = k"
  by (simp add: round_half_even_def)

lemma round_half_even_ge_int: "of_int k \<le> t \<Longrightarrow> k \<le> round_half_even t"
proof -
  assume "of_int k \<le> t"
  then have "k \<le> \<lfloor>t\<rfloor>" by (simp add: le_floor_iff)
  then show ?thesis using round_half_even_cases [of t] by auto
qed

lemma round_half_even_le_int: "t \<le> of_int k \<Longrightarrow> round_half_even t \<le> k"
proof (cases "t = of_int k")
  case True
  then show ?thesis by simp
next
  case False
  assume "t \<le> of_int k"
  with False have "t < of_int k" by simp
  then have "\<lfloor>t\<rfloor> < k" by (simp add: floor_less_iff)
  then show ?thesis using round_half_even_cases [of t] by auto
qed

lemma round_half_even_mono: "t \<le> u \<Longrightarrow> round_half_even t \<le> round_half_even u"
proof -
  assume tu: "t \<le> u"
  then have fl: "\<lfloor>t\<rfloor> \<le> \<lfloor>u\<rfloor>" by (rule floor_mono)
  show ?thesis
  proof (cases "\<lfloor>t\<rfloor> = \<lfloor>u\<rfloor>")
    case True
    then have "t - of_int \<lfloor>t\<rfloor> \<le> u - of_int \<lfloor>u\<rfloor>" using tu by simp
    then show ?thesis using True by (auto simp: round_half_even_def Let_def)
  next
    case False
    then have "\<lfloor>t\<rfloor> + 1 \<le> \<lfloor>u\<rfloor>" using fl by simp
    moreover have "round_half_even t \<le> \<lfloor>t\<rfloor> + 1" using round_half_even_cases [of t] by auto
    moreover have "\<lfloor>u\<rfloor> \<le> round_half_even u" using round_half_even_cases [of u] by auto
    ultimately show ?thesis by linarith
  qed
qed

text \<open>The binade of a number: its two ends bound the number and are multiples of the spacing.\<close>

lemma fl_ulp_pos [simp]: "0 < fl_ulp p emin x"
  by (simp add: fl_ulp_def)

lemma floor_log2_bounds:
  assumes "0 < a"
  shows "2 powi \<lfloor>log 2 a\<rfloor> \<le> a" and "a < 2 powi (\<lfloor>log 2 a\<rfloor> + 1)"
proof -
  from floor_log_eq_powr_iff [of a 2 "\<lfloor>log 2 a\<rfloor>"] assms
  have "2 powr real_of_int \<lfloor>log 2 a\<rfloor> \<le> a" "a < 2 powr real_of_int (\<lfloor>log 2 a\<rfloor> + 1)"
    by simp_all
  moreover have "(2::real) powr real_of_int k = 2 powi k" for k
    by (rule powr_real_of_int') simp_all
  ultimately show "2 powi \<lfloor>log 2 a\<rfloor> \<le> a" "a < 2 powi (\<lfloor>log 2 a\<rfloor> + 1)"
    by (simp_all only:)
qed

lemma fl_exp_upper: "x \<noteq> 0 \<Longrightarrow> \<bar>x\<bar> < 2 powi (fl_exp emin x + 1)"
proof -
  assume "x \<noteq> 0"
  then have "\<bar>x\<bar> < 2 powi (\<lfloor>log 2 \<bar>x\<bar>\<rfloor> + 1)" by (simp add: floor_log2_bounds)
  also have "\<dots> \<le> 2 powi (fl_exp emin x + 1)"
    by (rule power_int_increasing) (simp_all add: fl_exp_def)
  finally show ?thesis .
qed

lemma fl_exp_lower: "x \<noteq> 0 \<Longrightarrow> emin < fl_exp emin x \<Longrightarrow> 2 powi fl_exp emin x \<le> \<bar>x\<bar>"
proof -
  assume x: "x \<noteq> 0" and "emin < fl_exp emin x"
  then have "fl_exp emin x = \<lfloor>log 2 \<bar>x\<bar>\<rfloor>" by (simp add: fl_exp_def max_def split: if_splits)
  then show ?thesis using x by (simp add: floor_log2_bounds)
qed

lemma fl_exp_mono: "x \<noteq> 0 \<Longrightarrow> \<bar>x\<bar> \<le> \<bar>y\<bar> \<Longrightarrow> fl_exp emin x \<le> fl_exp emin y"
proof -
  assume "x \<noteq> 0" "\<bar>x\<bar> \<le> \<bar>y\<bar>"
  then have "log 2 \<bar>x\<bar> \<le> log 2 \<bar>y\<bar>" by simp
  then have "\<lfloor>log 2 \<bar>x\<bar>\<rfloor> \<le> \<lfloor>log 2 \<bar>y\<bar>\<rfloor>" by (rule floor_mono)
  then show ?thesis by (simp add: fl_exp_def)
qed

lemma fl_exp_ge_emin: "emin \<le> fl_exp emin x"
  by (simp add: fl_exp_def)

lemma binade_top: "2 powi (fl_exp emin x + 1) = of_int (2 ^ p) * fl_ulp p emin x"
proof -
  have "(2::real) powi (int p + (fl_exp emin x - (int p - 1))) =
        2 powi int p * 2 powi (fl_exp emin x - (int p - 1))"
    by (rule power_int_add) simp
  moreover have "int p + (fl_exp emin x - (int p - 1)) = fl_exp emin x + 1" by simp
  ultimately show ?thesis by (simp add: fl_ulp_def)
qed

lemma binade_bottom: "0 < p \<Longrightarrow> 2 powi fl_exp emin x = of_int (2 ^ (p - 1)) * fl_ulp p emin x"
proof -
  assume p: "0 < p"
  have "(2::real) powi (int (p - 1) + (fl_exp emin x - (int p - 1))) =
        2 powi int (p - 1) * 2 powi (fl_exp emin x - (int p - 1))"
    by (rule power_int_add) simp
  moreover have "int (p - 1) + (fl_exp emin x - (int p - 1)) = fl_exp emin x" using p by simp
  ultimately have "(2::real) powi fl_exp emin x =
        2 powi int (p - 1) * 2 powi (fl_exp emin x - (int p - 1))"
    by (simp only:)
  then show ?thesis by (simp only: fl_ulp_def power_int_of_nat of_int_power of_int_numeral)
qed

text \<open>
  The rounded value stays in the closed binade of the number, on the side of zero where the
  number is; from this, rounding is monotone.
\<close>

lemma fl_ulp_nonneg [simp]: "0 \<le> fl_ulp p emin x"
  using fl_ulp_pos [of p emin x] by (rule less_imp_le)

lemma fl_ulp_neq0 [simp]: "fl_ulp p emin x \<noteq> 0"
  using fl_ulp_pos [of p emin x] by (rule less_imp_neq [THEN not_sym])

lemma fl_round_nonneg: "0 \<le> x \<Longrightarrow> 0 \<le> fl_round p emin x"
proof (cases "x = 0")
  case True
  then show ?thesis by (simp add: fl_round_def)
next
  case False
  assume "0 \<le> x"
  then have "of_int 0 \<le> x / fl_ulp p emin x" by simp
  then have "0 \<le> round_half_even (x / fl_ulp p emin x)" by (rule round_half_even_ge_int)
  then show ?thesis using False by (simp add: fl_round_def)
qed

lemma fl_round_nonpos: "x \<le> 0 \<Longrightarrow> fl_round p emin x \<le> 0"
proof (cases "x = 0")
  case True
  then show ?thesis by (simp add: fl_round_def)
next
  case False
  assume "x \<le> 0"
  then have "x / fl_ulp p emin x \<le> of_int 0" by (simp add: divide_nonpos_pos)
  then have "round_half_even (x / fl_ulp p emin x) \<le> 0" by (rule round_half_even_le_int)
  then show ?thesis using False by (simp add: fl_round_def mult_nonpos_nonneg)
qed

lemma fl_round_le_top:
  assumes "0 < x"
  shows "fl_round p emin x \<le> 2 powi (fl_exp emin x + 1)"
proof -
  let ?q = "fl_ulp p emin x"
  have "x < of_int (2 ^ p) * ?q"
    using fl_exp_upper [of x emin] assms by (simp add: binade_top [of emin x p])
  then have "x / ?q \<le> of_int (2 ^ p)" by (simp add: pos_divide_le_eq)
  then have "round_half_even (x / ?q) \<le> 2 ^ p" by (rule round_half_even_le_int)
  then have "of_int (round_half_even (x / ?q)) * ?q \<le> of_int (2 ^ p) * ?q"
    by (intro mult_right_mono) simp_all
  then show ?thesis using assms by (simp add: fl_round_def binade_top [of emin x p])
qed

lemma fl_round_ge_bottom:
  assumes "0 < x" "0 < p" "emin < fl_exp emin x"
  shows "2 powi fl_exp emin x \<le> fl_round p emin x"
proof -
  let ?q = "fl_ulp p emin x"
  have "of_int (2 ^ (p - 1)) * ?q \<le> x"
    using fl_exp_lower [of x emin] assms by (simp add: binade_bottom [of p emin x])
  then have "of_int (2 ^ (p - 1)) \<le> x / ?q" by (simp add: pos_le_divide_eq)
  then have "2 ^ (p - 1) \<le> round_half_even (x / ?q)" by (rule round_half_even_ge_int)
  then have "of_int (2 ^ (p - 1)) * ?q \<le> of_int (round_half_even (x / ?q)) * ?q"
    by (intro mult_right_mono) simp_all
  then show ?thesis using assms by (simp add: fl_round_def binade_bottom [of p emin x])
qed

lemma fl_round_ge_top_neg:
  assumes "x < 0"
  shows "- (2 powi (fl_exp emin x + 1)) \<le> fl_round p emin x"
proof -
  let ?q = "fl_ulp p emin x"
  have "- (of_int (2 ^ p) * ?q) < x"
    using fl_exp_upper [of x emin] assms by (simp add: binade_top [of emin x p])
  then have "of_int (- (2 ^ p)) \<le> x / ?q" by (simp add: pos_le_divide_eq)
  then have "- (2 ^ p) \<le> round_half_even (x / ?q)" by (rule round_half_even_ge_int)
  then have "(of_int (- (2 ^ p)) :: real) \<le> of_int (round_half_even (x / ?q))"
    by (simp only: of_int_le_iff)
  then have "of_int (- (2 ^ p)) * ?q \<le> of_int (round_half_even (x / ?q)) * ?q"
    by (rule mult_right_mono) simp
  then show ?thesis using assms by (simp add: fl_round_def binade_top [of emin x p])
qed

lemma fl_round_le_bottom_neg:
  assumes "x < 0" "0 < p" "emin < fl_exp emin x"
  shows "fl_round p emin x \<le> - (2 powi fl_exp emin x)"
proof -
  let ?q = "fl_ulp p emin x"
  have "x \<le> - (of_int (2 ^ (p - 1)) * ?q)"
    using fl_exp_lower [of x emin] assms by (simp add: binade_bottom [of p emin x])
  then have "x / ?q \<le> of_int (- (2 ^ (p - 1)))" by (simp add: pos_divide_le_eq)
  then have "round_half_even (x / ?q) \<le> - (2 ^ (p - 1))" by (rule round_half_even_le_int)
  then have "(of_int (round_half_even (x / ?q)) :: real) \<le> of_int (- (2 ^ (p - 1)))"
    by (simp only: of_int_le_iff)
  then have "of_int (round_half_even (x / ?q)) * ?q \<le> of_int (- (2 ^ (p - 1))) * ?q"
    by (rule mult_right_mono) simp
  then show ?thesis using assms by (simp add: fl_round_def binade_bottom [of p emin x])
qed

lemma fl_round_same_exp:
  assumes "x \<le> y" "x \<noteq> 0" "y \<noteq> 0" "fl_exp emin x = fl_exp emin y"
  shows "fl_round p emin x \<le> fl_round p emin y"
proof -
  have q: "fl_ulp p emin x = fl_ulp p emin y" using assms by (simp add: fl_ulp_def)
  have "x / fl_ulp p emin y \<le> y / fl_ulp p emin y" using assms by (simp add: divide_right_mono)
  then have "round_half_even (x / fl_ulp p emin y) \<le> round_half_even (y / fl_ulp p emin y)"
    by (rule round_half_even_mono)
  then have "of_int (round_half_even (x / fl_ulp p emin y)) * fl_ulp p emin y
           \<le> of_int (round_half_even (y / fl_ulp p emin y)) * fl_ulp p emin y"
    by (intro mult_right_mono) simp_all
  then show ?thesis using assms q by (simp add: fl_round_def)
qed

lemma fl_round_mono:
  assumes p: "0 < p" and xy: "x \<le> y"
  shows "fl_round p emin x \<le> fl_round p emin y"
proof -
  consider "x \<le> 0" "0 \<le> y" | "0 < x" | "y < 0" using xy by linarith
  then show ?thesis
  proof cases
    case 1
    then show ?thesis using fl_round_nonpos [of x p emin] fl_round_nonneg [of y p emin] by linarith
  next
    case 2
    then have y: "0 < y" using xy by simp
    have le: "fl_exp emin x \<le> fl_exp emin y" using 2 y xy by (intro fl_exp_mono) simp_all
    show ?thesis
    proof (cases "fl_exp emin x = fl_exp emin y")
      case True
      then show ?thesis using 2 y xy by (intro fl_round_same_exp) simp_all
    next
      case False
      then have lt: "fl_exp emin x + 1 \<le> fl_exp emin y" using le by simp
      then have "emin < fl_exp emin y" using fl_exp_ge_emin [of emin x] by simp
      then have "2 powi fl_exp emin y \<le> fl_round p emin y"
        using y p by (intro fl_round_ge_bottom) simp_all
      moreover have "fl_round p emin x \<le> 2 powi (fl_exp emin x + 1)"
        using 2 by (rule fl_round_le_top)
      moreover have "(2::real) powi (fl_exp emin x + 1) \<le> 2 powi fl_exp emin y"
        using lt by (intro power_int_increasing) simp_all
      ultimately show ?thesis by linarith
    qed
  next
    case 3
    then have x: "x < 0" using xy by simp
    have le: "fl_exp emin y \<le> fl_exp emin x" using 3 x xy by (intro fl_exp_mono) simp_all
    show ?thesis
    proof (cases "fl_exp emin x = fl_exp emin y")
      case True
      then show ?thesis using 3 x xy by (intro fl_round_same_exp) simp_all
    next
      case False
      then have lt: "fl_exp emin y + 1 \<le> fl_exp emin x" using le by simp
      then have "emin < fl_exp emin x" using fl_exp_ge_emin [of emin y] by simp
      then have "fl_round p emin x \<le> - (2 powi fl_exp emin x)"
        using x p by (intro fl_round_le_bottom_neg) simp_all
      moreover have "- (2 powi (fl_exp emin y + 1)) \<le> fl_round p emin y"
        using 3 by (rule fl_round_ge_top_neg)
      moreover have "(2::real) powi (fl_exp emin y + 1) \<le> 2 powi fl_exp emin x"
        using lt by (intro power_int_increasing) simp_all
      ultimately show ?thesis by linarith
    qed
  qed
qed

text \<open>A number of the format is its own rounding; so rounding is idempotent.\<close>

lemma fl_round_zero [simp]: "fl_round p emin 0 = 0"
  by (simp add: fl_round_def)

lemma pow2_less_cancel: "(2::real) powi m < 2 powi n \<Longrightarrow> m < n"
proof (rule ccontr)
  assume lt: "(2::real) powi m < 2 powi n" and "\<not> m < n"
  then have "n \<le> m" by simp
  then have "(2::real) powi n \<le> 2 powi m" by (rule power_int_increasing) simp
  then show False using lt by simp
qed

lemma pow2_less: "m < n \<Longrightarrow> (2::real) powi m < 2 powi n"
  by (rule power_int_strict_increasing) simp_all

lemma fl_exp_eq:
  assumes x: "x \<noteq> 0" and up: "\<bar>x\<bar> < 2 powi (k + 1)" and lo: "emin < k \<Longrightarrow> 2 powi k \<le> \<bar>x\<bar>"
    and k: "emin \<le> k"
  shows "fl_exp emin x = k"
proof -
  let ?f = "\<lfloor>log 2 \<bar>x\<bar>\<rfloor>"
  have a: "0 < \<bar>x\<bar>" using x by simp
  have "(2::real) powi ?f < 2 powi (k + 1)"
    using floor_log2_bounds(1) [OF a] up by linarith
  then have f_le: "?f \<le> k" using pow2_less_cancel [of ?f "k + 1"] by simp
  show ?thesis
  proof (cases "emin < k")
    case True
    then have "(2::real) powi k < 2 powi (?f + 1)"
      using floor_log2_bounds(2) [OF a] lo by linarith
    then have "k \<le> ?f" using pow2_less_cancel [of k "?f + 1"] by simp
    then show ?thesis using f_le True by (simp add: fl_exp_def)
  next
    case False
    then show ?thesis using f_le k by (simp add: fl_exp_def)
  qed
qed

lemma fl_round_int_mult:
  assumes x: "x \<noteq> 0" and e: "fl_exp emin x = k" and n: "x = of_int n * 2 powi (k - (int p - 1))"
  shows "fl_round p emin x = x"
proof -
  have q: "fl_ulp p emin x = 2 powi (k - (int p - 1))" using e by (simp add: fl_ulp_def)
  have "x / fl_ulp p emin x = of_int n" unfolding q using n by simp
  then show ?thesis using x q n by (simp add: fl_round_def)
qed

lemma fl_round_abs_le:
  assumes "x \<noteq> 0"
  shows "\<bar>fl_round p emin x\<bar> \<le> 2 powi (fl_exp emin x + 1)"
proof (cases "0 < x")
  case True
  then show ?thesis
    using fl_round_le_top [of x p emin] fl_round_nonneg [of x p emin] by simp
next
  case False
  then have "x < 0" using assms by simp
  then show ?thesis
    using fl_round_ge_top_neg [of x emin p] fl_round_nonpos [of x p emin] by simp
qed

lemma fl_round_abs_ge:
  assumes "x \<noteq> 0" "0 < p" "emin < fl_exp emin x"
  shows "2 powi fl_exp emin x \<le> \<bar>fl_round p emin x\<bar>"
proof (cases "0 < x")
  case True
  then show ?thesis
    using fl_round_ge_bottom [of x p emin] assms by simp
next
  case False
  then have "x < 0" using assms by simp
  then show ?thesis
    using fl_round_le_bottom_neg [of x p emin] assms by simp
qed

lemma fl_round_idem:
  assumes p: "0 < p"
  shows "fl_round p emin (fl_round p emin x) = fl_round p emin x"
proof (cases "fl_round p emin x = 0")
  case True
  then show ?thesis by simp
next
  case False
  let ?r = "fl_round p emin x"
  let ?e = "fl_exp emin x"
  let ?n = "round_half_even (x / fl_ulp p emin x)"
  have x: "x \<noteq> 0" using False by auto
  have r: "?r = of_int ?n * 2 powi (?e - (int p - 1))"
    using x by (simp add: fl_round_def fl_ulp_def)
  show ?thesis
  proof (cases "\<bar>?r\<bar> = 2 powi (?e + 1)")
    case True
    have "fl_exp emin ?r = ?e + 1"
    proof (rule fl_exp_eq)
      show "?r \<noteq> 0" by (rule False)
      show "\<bar>?r\<bar> < 2 powi (?e + 1 + 1)"
        unfolding True by (rule pow2_less) simp
      show "2 powi (?e + 1) \<le> \<bar>?r\<bar>" unfolding True by simp
      show "emin \<le> ?e + 1" using fl_exp_ge_emin [of emin x] by simp
    qed
    moreover have "?r = of_int (if 0 < ?r then 2 ^ (p - 1) else - (2 ^ (p - 1))) * 2 powi (?e + 1 - (int p - 1))"
    proof -
      have "(2::real) powi (int (p - 1) + (?e + 1 - (int p - 1))) =
            2 powi int (p - 1) * 2 powi (?e + 1 - (int p - 1))"
        by (rule power_int_add) simp
      moreover have "int (p - 1) + (?e + 1 - (int p - 1)) = ?e + 1" using p by simp
      ultimately have "(2::real) powi (?e + 1) = 2 ^ (p - 1) * 2 powi (?e + 1 - (int p - 1))"
        by (simp only: power_int_of_nat)
      then show ?thesis using True by (simp add: abs_if split: if_splits)
    qed
    ultimately show ?thesis using False by (rule fl_round_int_mult [rotated])
  next
    case ne: False
    have "fl_exp emin ?r = ?e"
    proof (rule fl_exp_eq)
      show "?r \<noteq> 0" by (rule False)
      show "\<bar>?r\<bar> < 2 powi (?e + 1)" using fl_round_abs_le [OF x, of p emin] ne by simp
      show "2 powi ?e \<le> \<bar>?r\<bar>" if "emin < ?e" using fl_round_abs_ge [OF x p that] .
      show "emin \<le> ?e" by (rule fl_exp_ge_emin)
    qed
    then show ?thesis by (rule fl_round_int_mult [OF False _ r])
  qed
qed

text \<open>Single precision: evaluation on concrete numbers, monotonicity, idempotence.\<close>

lemma fl_round_eval:
  assumes "x \<noteq> 0" "\<bar>x\<bar> < 2 powi (k + 1)" "emin < k \<Longrightarrow> 2 powi k \<le> \<bar>x\<bar>" "emin \<le> k"
  shows "fl_round p emin x =
         of_int (round_half_even (x / 2 powi (k - (int p - 1)))) * 2 powi (k - (int p - 1))"
proof -
  have "fl_exp emin x = k" using assms by (rule fl_exp_eq)
  then show ?thesis using assms(1) by (simp add: fl_round_def fl_ulp_def)
qed

lemma pow2_m3: "(2::real) powi (- 3) = 1 / 8" by (simp add: power_int_minus)
lemma pow2_m2: "(2::real) powi (- 3 + 1) = 1 / 4" by (simp add: power_int_minus)
lemma pow2_m26: "(2::real) powi (- 3 - (int 24 - 1)) = 1 / 67108864" by (simp add: power_int_minus)

lemma f32_round_eighth: "f32_round (1 / 8) = 1 / 8"
  unfolding f32_round_def
  by (subst fl_round_eval [where k = "- 3"])
     (simp_all add: pow2_m3 pow2_m2 pow2_m26 round_half_even_def)

lemma f32_round_minus_eighth: "f32_round (- (1 / 8)) = - (1 / 8)"
  unfolding f32_round_def
  by (subst fl_round_eval [where k = "- 3"])
     (simp_all add: pow2_m3 pow2_m2 pow2_m26 round_half_even_def)

lemma pow2_9: "(2::real) powi 9 = 512" by simp
lemma pow2_10: "(2::real) powi (9 + 1) = 1024" by simp
lemma pow2_m14: "(2::real) powi (9 - (int 24 - 1)) = 1 / 16384" by (simp add: power_int_minus)

lemma f32_round_absorbs: "f32_round (1024 + - (1 / 1048576)) = 1024"
  unfolding f32_round_def
  by (subst fl_round_eval [where k = 9])
     (simp_all add: pow2_9 pow2_10 pow2_m14 round_half_even_def)

lemma pow2_24: "(2::real) powi 24 = 16777216" by simp
lemma pow2_25: "(2::real) powi (24 + 1) = 33554432" by simp
lemma pow2_1: "(2::real) powi (24 - (int 24 - 1)) = 2" by simp

lemma f32_round_absorbs_one: "f32_round (16777216 + 1) = 16777216"
  unfolding f32_round_def
  by (subst fl_round_eval [where k = 24])
     (simp_all add: pow2_24 pow2_25 pow2_1 round_half_even_def)

lemma f32_round_1024: "f32_round 1024 = 1024"
  unfolding f32_round_def
  by (subst fl_round_eval [where k = 10])
     (simp_all add: power_int_minus round_half_even_def)

lemma f32_round_zero: "f32_round 0 = 0"
  by (simp add: f32_round_def)

lemma f32_round_mono: "x \<le> y \<Longrightarrow> f32_round x \<le> f32_round y"
  unfolding f32_round_def by (rule fl_round_mono) simp

lemma f32_round_idem: "f32_round (f32_round x) = f32_round x"
  unfolding f32_round_def by (rule fl_round_idem) simp

subsection \<open>C2: the accumulated energy\<close>

lemmas time_sample_defs =
  TIME_SAMPLE_H_def TIME_SAMPLE_S_def NUM_SAMPLES_ACCUM_def PAIRS_PER_CYCLE_def SAMPLE_FREQ_HZ_def
  FUND_FREQ_HZ_def NUM_CYCLES_ACCUM_def

lemma measure_export_E: "E measure_export = - (1 / 8)"
  by (simp add: measure_export_def results_from_def VOLT_DRIVER_GROUNDNOISE_def
      ACS712_GROUNDNOISE_def time_sample_defs)

lemma measure_import_E: "E measure_import = 1 / 8"
  by (simp add: measure_import_def results_from_def VOLT_DRIVER_GROUNDNOISE_def
      ACS712_GROUNDNOISE_def time_sample_defs)

lemma state_boot_E: "E (measure (state state_boot)) = 0"
  by (simp add: state_boot_def state_init_def state_set_energy_def f32_round_zero)

text \<open>The total after an update is the rounded sum.\<close>

lemma state_update_measure_E:
  "E (measure (state (fst (state_update_measure m sm)))) = f32_round (E (measure (state sm)) + E m)"
  by (simp add: state_update_measure_def Let_def)

text \<open>
  Every operation of \<^verbatim>\<open>state.c\<close> that writes the total leaves a number of the
  single-precision format in it.
\<close>

lemma state_energy_is_float:
  "f32_round (E (measure (state (state_init energy)))) = E (measure (state (state_init energy)))"
  "f32_round (E (measure (state (state_set_energy energy sm)))) = E (measure (state (state_set_energy energy sm)))"
  "f32_round (E (measure (state (fst (state_reset_energy sm))))) = E (measure (state (fst (state_reset_energy sm))))"
  by (simp_all add: state_init_def state_set_energy_def state_reset_energy_def f32_round_idem
      f32_round_zero)

text \<open>
  One update with an increment that is not negative does not lower a total that is a number
  of the format, and leaves such a number; so along every sequence of such updates the total
  does not fall below the value it started from.
\<close>

lemma state_update_measure_mono:
  assumes "f32_round (E (measure (state sm))) = E (measure (state sm))" and "0 \<le> E m"
  shows "E (measure (state sm)) \<le> E (measure (state (fst (state_update_measure m sm))))"
proof -
  have "f32_round (E (measure (state sm))) \<le> f32_round (E (measure (state sm)) + E m)"
    using assms(2) by (intro f32_round_mono) simp
  then show ?thesis using assms(1) by (simp add: state_update_measure_E)
qed

lemma state_update_measure_is_float:
  "f32_round (E (measure (state (fst (state_update_measure m sm))))) =
   E (measure (state (fst (state_update_measure m sm))))"
  by (simp add: state_update_measure_E f32_round_idem)

lemma state_update_measure_sequence:
  assumes "f32_round (E (measure (state sm))) = E (measure (state sm))" and "\<forall>m \<in> set ms. 0 \<le> E m"
  shows "E (measure (state sm)) \<le>
         E (measure (state (foldl (\<lambda>sm m. fst (state_update_measure m sm)) sm ms)))"
  using assms
proof (induction ms arbitrary: sm)
  case Nil
  then show ?case by simp
next
  case (Cons m ms)
  let ?sm1 = "fst (state_update_measure m sm)"
  have "E (measure (state sm)) \<le> E (measure (state ?sm1))"
    using Cons.prems by (intro state_update_measure_mono) simp_all
  also have "\<dots> \<le> E (measure (state (foldl (\<lambda>sm m. fst (state_update_measure m sm)) ?sm1 ms)))"
    using Cons.prems by (intro Cons.IH state_update_measure_is_float) simp
  finally show ?case by simp
qed

text \<open>
  The sum is rounded, so an increment that is small against the total is absorbed,
  whatever its sign: at 1024 the spacing of the format below the total is \<open>2 powi (- 14)\<close>,
  and an increment of \<open>- (2 powi (- 20))\<close> leaves the total where it was; at \<open>2 ^ 24\<close> an
  increment of 1 does. A negative increment therefore does not always lower the total, and
  the total is not the exact sum of the increments.
\<close>

lemma state_update_measure_absorbs:
  assumes "E (measure (state sm)) = 1024" and "E m = - (1 / 1048576)"
  shows "E (measure (state (fst (state_update_measure m sm)))) = 1024"
  using assms by (simp only: state_update_measure_E f32_round_absorbs)

lemma state_update_measure_absorbs_one:
  assumes "E (measure (state sm)) = 16777216" and "E m = 1"
  shows "E (measure (state (fst (state_update_measure m sm)))) = 16777216"
  using assms by (simp only: state_update_measure_E f32_round_absorbs_one)

text \<open>
  C2, as stated, fails: \<^verbatim>\<open>state_update_measure\<close> adds the increment whatever its sign,
  and the increment of a window is its active power times the window length. After
  start-up with no stored energy, a window of \<open>-2250\<close> W (an increment of \<open>-1/8\<close>, which
  is a number of the format, so that the sum is stored as it is) leaves the total below its
  previous value 0.
\<close>

theorem state_update_measure_counterexample:
  "E (measure (state (fst (state_update_measure measure_export state_boot)))) < E (measure (state state_boot))"
  by (simp add: state_update_measure_E measure_export_E state_boot_E f32_round_minus_eighth)

text \<open>
  C2, amended: every call of \<^verbatim>\<open>state_update_measure\<close> whose increment \<open>m.E\<close> is not
  negative leaves \<open>E_total\<close> greater than or equal to its previous value. \<open>E_total\<close> is a
  \<^verbatim>\<open>float\<close>: the total before the call is a number of the single-precision format, and so
  is the total after it, which is the sum rounded to that format. \<^verbatim>\<open>state_reset_energy\<close>
  sets the total to zero.
\<close>

theorem state_update_measure_energy:
  "let E0 = E (measure (state sm)); E1 = E (measure (state (fst (state_update_measure m sm))))
   in (f32_round E0 = E0 \<and> 0 \<le> E m \<longrightarrow> E0 \<le> E1) \<and> f32_round E1 = E1 \<and>
      E (measure (state (fst (state_reset_energy sm)))) = 0"
  using state_update_measure_mono [of sm m] state_update_measure_is_float [of m sm]
  by (simp add: state_reset_energy_def Let_def)

theorem state_update_measure_energy_witness:
  "f32_round (E (measure (state state_boot))) = E (measure (state state_boot)) \<and>
   0 \<le> E measure_import \<and>
   E (measure (state state_boot)) \<le> E (measure (state (fst (state_update_measure measure_import state_boot))))"
  using state_update_measure_energy [where m = measure_import and sm = state_boot]
  by (simp add: Let_def state_boot_E measure_import_E f32_round_zero)

subsection \<open>C4: persistence and the state mutex\<close>

text \<open>
  \<^verbatim>\<open>state_update_measure\<close> releases the mutex before it saves: its calls are take, give
  and, when the threshold is reached, the save of the value stored in \<^verbatim>\<open>last_saved_E\<close>.
\<close>

lemma state_update_measure_saves_after_give:
  "\<not> saves_while_held held (snd (state_update_measure m sm))"
  by (simp add: state_update_measure_def Let_def)

lemma state_update_measure_events:
  "snd (state_update_measure m sm) =
     (if f64_round (f32_round (E (measure (state sm)) + E m) - last_saved_E sm) \<ge> SAVE_ENERGY_THS_KWH
      then [xSemaphoreTake, xSemaphoreGive,
            nvs_save_energy (f32_round (E (measure (state sm)) + E m)), ESP_LOGI]
      else [xSemaphoreTake, xSemaphoreGive])"
  by (simp add: state_update_measure_def Let_def)

text \<open>
  C4 (the energy is never persisted while the state mutex is held, in
  \<^verbatim>\<open>state_update_measure\<close> and in \<^verbatim>\<open>state_reset_energy\<close>) holds for the first and fails
  for the second: \<^verbatim>\<open>state_reset_energy\<close> calls \<^verbatim>\<open>nvs_save_energy(0.0)\<close> between
  \<^verbatim>\<open>xSemaphoreTake\<close> and \<^verbatim>\<open>xSemaphoreGive\<close>. Its calls after start-up with no stored
  energy:
\<close>

theorem state_reset_energy_saves_under_mutex:
  "snd (state_reset_energy state_boot) = [xSemaphoreTake, nvs_save_energy 0, ESP_LOGI, xSemaphoreGive] \<and>
   saves_while_held False (snd (state_reset_energy state_boot))"
  by (simp add: state_reset_energy_def)

subsection \<open>C9: the change detector\<close>

lemma change_loop_eq:
  "change_loop s sent (l0, f0) n =
     (l0 \<or> (\<exists>i<n. outputs s ! i \<noteq> outputs sent ! i),
      f0 \<or> (\<exists>i<n. FAIL_V (fails s) ! i \<noteq> FAIL_V (fails sent) ! i))"
  by (induction n) (auto simp: less_Suc_eq)

lemma elapsed_wrap_safe:
  fixes tmin :: uint32_t
  assumes "d < 2 ^ 32"
  shows "(tmin \<le> word_of_nat d) \<longleftrightarrow> unat tmin \<le> d"
proof -
  have "unat (word_of_nat d :: uint32_t) = d" using assms by (simp add: unat_of_nat)
  then show ?thesis by (simp add: word_le_nat_alt)
qed

lemma ex_less_4: "(\<exists>i<4::nat. Q i) \<longleftrightarrow> Q 0 \<or> Q 1 \<or> Q 2 \<or> Q 3"
proof -
  have "i < 4 \<longleftrightarrow> i = 0 \<or> i = 1 \<or> i = 2 \<or> i = 3" for i :: nat
    by auto
  then show ?thesis by auto
qed

text \<open>
  C9: for every detector, state, thresholds and clock, \<^verbatim>\<open>state_change_detector_update\<close>
  returns true when \<^verbatim>\<open>last_update_time\<close> is 0, in particular on the first call after
  \<^verbatim>\<open>state_change_detector_init\<close>; otherwise it returns
  \<open>(value_change \<or> load_change \<or> fail_change) \<and> enough_time\<close>, where \<open>enough_time\<close> compares
  the 32-bit difference \<open>now_ms - last_update_time\<close> with \<^verbatim>\<open>tmin_ms\<close>. The difference is
  wrap-safe: when \<open>d < 2\<^sup>3\<^sup>2\<close> milliseconds have passed, so that \<open>now_ms\<close> is
  \<open>last_update_time + d\<close> modulo \<open>2\<^sup>3\<^sup>2\<close>, \<open>enough_time\<close> is \<open>tmin_ms \<le> d\<close>.
\<close>

theorem state_change_detector_update_result:
  "let last = last_update_time detector;
       sent = last_sent detector;
       now_ms = pdTICKS_TO_MS env (tick_reads env 0);
       value_change =
         (\<bar>Irms (measure s) - Irms (measure sent)\<bar> > i_ths ths \<or>
          \<bar>Vrms (measure s) - Vrms (measure sent)\<bar> > v_ths ths \<or>
          \<bar>\<bar>fp (measure s)\<bar> - \<bar>fp (measure sent)\<bar>\<bar> > fp_ths ths \<or>
          \<bar>E (measure s) - E (measure sent)\<bar> > e_ths ths);
       load_change = (\<exists>i<NUM_LOADS. outputs s ! i \<noteq> outputs sent ! i);
       fail_change =
         (FAIL_I (fails s) \<noteq> FAIL_I (fails sent) \<or>
          (\<exists>i<NUM_LOADS. FAIL_V (fails s) ! i \<noteq> FAIL_V (fails sent) ! i));
       enough_time = (now_ms - last \<ge> tmin_ms ths);
       ret = fst (state_change_detector_update detector s ths env)
   in (last = 0 \<longrightarrow> ret) \<and>
      fst (state_change_detector_update (state_change_detector_init detector) s ths env) \<and>
      (last \<noteq> 0 \<longrightarrow> (ret \<longleftrightarrow> (value_change \<or> load_change \<or> fail_change) \<and> enough_time)) \<and>
      (\<forall>d < 2 ^ 32. now_ms = last + of_nat d \<longrightarrow> (enough_time \<longleftrightarrow> unat (tmin_ms ths) \<le> d))"
  using elapsed_wrap_safe [of _ "tmin_ms ths"]
  by (auto simp: state_change_detector_update_def is_val_change_of_def change_loop_eq Let_def
      xTaskGetTickCount_def state_change_detector_init_def split: prod.splits)

lemma detector_fresh_eq: "detector_fresh = \<lparr>last_sent = zero_state, last_update_time = 0\<rparr>"
  by (simp add: detector_fresh_def state_change_detector_init_def)

lemma detector_sent_eq: "detector_sent = \<lparr>last_sent = zero_state, last_update_time = 100\<rparr>"
  by (simp add: detector_sent_def detector_fresh_eq state_change_detector_mark_sent_def xTaskGetTickCount_def
     env_early_def pdTICKS_TO_MS_def)

lemma env_later_eq: "env_later = \<lparr>configTICK_RATE_HZ = 1000, tick_reads = (\<lambda>k. 100 + 1000 * of_nat (Suc k))\<rparr>"
  by (simp add: env_later_def detector_fresh_eq state_change_detector_mark_sent_def xTaskGetTickCount_def
     env_early_def pdTICKS_TO_MS_def)

theorem state_change_detector_update_result_witness:
  "last_update_time detector_fresh = 0 \<and>
   fst (state_change_detector_update detector_fresh zero_state ths_default env_early) \<and>
   last_update_time detector_sent \<noteq> 0 \<and>
   \<not> fst (state_change_detector_update detector_sent zero_state ths_default env_later) \<and>
   fst (state_change_detector_update detector_sent state_load0_on ths_default env_later)"
  using state_change_detector_update_result [where detector = detector_fresh and s = zero_state and ths = ths_default and env = env_early]
        state_change_detector_update_result [where detector = detector_sent and s = zero_state and ths = ths_default and env = env_later]
        state_change_detector_update_result [where detector = detector_sent and s = state_load0_on and ths = ths_default and env = env_later]
  by (simp add: detector_fresh_eq detector_sent_eq env_later_eq env_early_def ths_default_def zero_state_def
      state_load0_on_def zero_measure_def ex_less_4 pdTICKS_TO_MS_def Let_def NUM_LOADS_def)

subsection \<open>C7: the post-processing of a window\<close>

text \<open>The record that \<^verbatim>\<open>measure_get_results\<close> fills, field by field.\<close>

lemma results_from_fields:
  "results_from v_dc i_dc vpk ipk Vrms0 Irms0 P0 =
     \<lparr>Vrms = (if Vrms0 \<le> VOLT_DRIVER_GROUNDNOISE then 0 else Vrms0),
      VDC = v_dc / 1000,
      Vpk = vpk,
      Irms = max 0 ((if Irms0 \<le> ACS712_GROUNDNOISE then 0 else Irms0) - ACS712_OFFSET),
      IDC = i_dc / 1000,
      Ipk = ipk,
      P = (if Vrms0 \<le> VOLT_DRIVER_GROUNDNOISE \<or> Irms0 \<le> ACS712_GROUNDNOISE then 0 else P0),
      S = (if Vrms0 \<le> VOLT_DRIVER_GROUNDNOISE then 0 else Vrms0) *
          (if Irms0 \<le> ACS712_GROUNDNOISE then 0 else Irms0),
      fp = (if (if Vrms0 \<le> VOLT_DRIVER_GROUNDNOISE then 0 else Vrms0) *
               (if Irms0 \<le> ACS712_GROUNDNOISE then 0 else Irms0) > 1 / 1000000
            then \<bar>if Vrms0 \<le> VOLT_DRIVER_GROUNDNOISE \<or> Irms0 \<le> ACS712_GROUNDNOISE then 0 else P0\<bar> /
                 ((if Vrms0 \<le> VOLT_DRIVER_GROUNDNOISE then 0 else Vrms0) *
                  (if Irms0 \<le> ACS712_GROUNDNOISE then 0 else Irms0))
            else 0),
      E = (if Vrms0 \<le> VOLT_DRIVER_GROUNDNOISE \<or> Irms0 \<le> ACS712_GROUNDNOISE then 0 else P0) * TIME_SAMPLE_H\<rparr>"
  by (auto simp: results_from_def Let_def max_def ACS712_OFFSET_def)

text \<open>
  C7: for every window, with \<open>Vrms0\<close>, \<open>Irms0\<close> and \<open>P0\<close> the values before the gates:
  \<open>Vrms0\<close> at or below the voltage noise floor forces \<open>Vrms\<close> and \<open>P\<close> to 0; \<open>Irms0\<close> at
  or below the current noise floor forces \<open>Irms\<close> and \<open>P\<close> to 0; \<open>S\<close> is the product of
  the gated \<open>Vrms\<close> and the gated \<open>Irms\<close>; \<open>fp\<close> is \<open>\<bar>P\<bar> / S\<close> when \<open>S > 10\<^sup>-\<^sup>6\<close> and 0
  otherwise; the emitted \<open>Irms\<close> is the larger of 0 and the gated \<open>Irms\<close> minus
  \<^verbatim>\<open>ACS712_OFFSET\<close>. (The offset is taken off after \<open>S\<close> is computed, so the emitted \<open>S\<close>
  is not the product of the emitted \<open>Vrms\<close> and \<open>Irms\<close>.)
\<close>

theorem measure_get_results_post:
  "let r = measure_get_results mm;
       Vrms0 = window_Vrms mm;
       Irms0 = window_Irms mm;
       P0 = window_P mm;
       Vrms1 = (if Vrms0 \<le> VOLT_DRIVER_GROUNDNOISE then 0 else Vrms0);
       Irms1 = (if Irms0 \<le> ACS712_GROUNDNOISE then 0 else Irms0)
   in (Vrms0 \<le> VOLT_DRIVER_GROUNDNOISE \<longrightarrow> Vrms r = 0 \<and> P r = 0) \<and>
      (Irms0 \<le> ACS712_GROUNDNOISE \<longrightarrow> Irms r = 0 \<and> P r = 0) \<and>
      Vrms r = Vrms1 \<and>
      P r = (if Vrms0 \<le> VOLT_DRIVER_GROUNDNOISE \<or> Irms0 \<le> ACS712_GROUNDNOISE then 0 else P0) \<and>
      S r = Vrms1 * Irms1 \<and>
      fp r = (if S r > 1 / 1000000 then \<bar>P r\<bar> / S r else 0) \<and>
      Irms r = max 0 (Irms1 - ACS712_OFFSET)"
  by (simp add: measure_get_results_def results_from_fields Let_def ACS712_OFFSET_def)

text \<open>The flat window: both loops leave their accumulators at 0.\<close>

lemma sum_loop_flat: "k \<le> n \<Longrightarrow> sum_loop (replicate n 0) k = 0"
  by (induction k) simp_all

lemma ac_loop_flat:
  "k \<le> NUM_SAMPLES_ACCUM \<Longrightarrow>
   ac_loop measure_flat 0 0 k = \<lparr>v_pk = 0, i_pk = 0, sum_rms_v = 0, sum_rms_i = 0, sum_p_inst = 0\<rparr>"
  by (induction k) (simp_all add: measure_flat_def Let_def)

lemma measure_flat_bufs:
  "v_buf measure_flat = replicate NUM_SAMPLES_ACCUM 0"
  "i_buf measure_flat = replicate NUM_SAMPLES_ACCUM 0"
  by (simp_all add: measure_flat_def)

lemma window_flat:
  "window_Vrms measure_flat = 0" "window_Irms measure_flat = 0" "window_P measure_flat = 0"
  "window_v_dc measure_flat = 0" "window_i_dc measure_flat = 0"
  by (simp_all add: window_Vrms_def window_Irms_def window_P_def window_acc_def window_v_dc_def
      window_i_dc_def ac_loop_flat sum_loop_flat measure_flat_bufs)

theorem measure_get_results_post_witness:
  "window_Vrms measure_flat \<le> VOLT_DRIVER_GROUNDNOISE \<and>
   window_Irms measure_flat \<le> ACS712_GROUNDNOISE \<and>
   Vrms (measure_get_results measure_flat) = 0 \<and>
   Irms (measure_get_results measure_flat) = 0 \<and>
   P (measure_get_results measure_flat) = 0 \<and>
   S (measure_get_results measure_flat) = 0 \<and>
   fp (measure_get_results measure_flat) = 0"
  using measure_get_results_post [where mm = measure_flat]
  by (simp add: window_flat VOLT_DRIVER_GROUNDNOISE_def ACS712_GROUNDNOISE_def Let_def)

text \<open>A window above both noise floors: 230 V, 8 A, \<open>-1800\<close> W.\<close>

lemma results_from_reverse:
  "measure_reverse = \<lparr>Vrms = 230, VDC = 0, Vpk = 0, Irms = 795 / 100, IDC = 0, Ipk = 0,
      P = - 1800, S = 1840, fp = 45 / 46, E = - (1 / 10)\<rparr>"
  by (simp add: measure_reverse_def results_from_fields VOLT_DRIVER_GROUNDNOISE_def ACS712_GROUNDNOISE_def
      ACS712_OFFSET_def TIME_SAMPLE_H_def TIME_SAMPLE_S_def NUM_SAMPLES_ACCUM_def PAIRS_PER_CYCLE_def
      SAMPLE_FREQ_HZ_def FUND_FREQ_HZ_def NUM_CYCLES_ACCUM_def)

subsection \<open>C6: frames, records and the pending-V flag\<close>

text \<open>The records of the concrete buffers and their two fields.\<close>

lemma rec1: "adc_record_at frame_pair 0 = 0x4123" 
  by (simp add: adc_record_at_def frame_pair_def)

lemma rec2: "adc_record_at frame_pair 2 = 0x6456" 
  by (simp add: adc_record_at_def frame_pair_def)

lemma rec_gap:
  "adc_record_at frame_gap 0 = 0x4123" "adc_record_at frame_gap 2 = 0x4FFF"
  "adc_record_at frame_gap 4 = 0x6456"
  by (simp_all add: adc_record_at_def frame_gap_def)

lemma ch1: "type1_channel 0x4123 = 4" "type1_data 0x4123 AND 0x0FFF = 0x123"
  by (simp_all add: type1_channel_def type1_data_def)

lemma ch2: "type1_channel 0x6456 = 6" "type1_data 0x6456 AND 0x0FFF = 0x456"
  by (simp_all add: type1_channel_def type1_data_def)

lemma ch3: "type1_channel 0x4FFF = 4" "type1_data 0x4FFF AND 0x0FFF = 0xFFF"
  by (simp_all add: type1_channel_def type1_data_def)

text \<open>
  What a call of \<^verbatim>\<open>measure_add_sample\<close> from the task changes of the task's own variables;
  and the range test of the source, which the 12-bit mask always satisfies.
\<close>

lemma pairs_acq_emit: "pairs (acq_emit a) = pairs a @ [(word_of_int (v_mv a), word_of_int (mv a))]"
  by (simp add: acq_emit_def Let_def split: prod.splits)

lemma have_v_acq_emit: "have_v (acq_emit a) = have_v a"
  by (simp add: acq_emit_def Let_def split: prod.splits)

lemma v_mv_acq_emit: "v_mv (acq_emit a) = v_mv a"
  by (simp add: acq_emit_def Let_def split: prod.splits)

lemma meas_mod_acq_emit:
  "meas_mod (acq_emit a) = snd (measure_add_sample (word_of_int (v_mv a)) (word_of_int (mv a)) (meas_mod a))"
  by (simp add: acq_emit_def Let_def split: prod.splits)

lemma mv_acq_emit: "mv (acq_emit a) = mv a"
  by (simp add: acq_emit_def Let_def split: prod.splits)

lemma measure_add_sample_bufs:
  "v_buf (snd (measure_add_sample v i mm)) = (v_buf mm)[sample_index mm := v]"
  "i_buf (snd (measure_add_sample v i mm)) = (i_buf mm)[sample_index mm := i]"
  "sample_index (snd (measure_add_sample v i mm)) =
     (if sample_index mm + 1 \<ge> NUM_SAMPLES_ACCUM then 0 else sample_index mm + 1)"
  "fst (measure_add_sample v i mm) \<longleftrightarrow> sample_index mm + 1 \<ge> NUM_SAMPLES_ACCUM"
  by (simp_all add: measure_add_sample_def Let_def)

lemma acq_emit_window:
  "(fst (measure_add_sample (word_of_int (v_mv a)) (word_of_int (mv a)) (meas_mod a)) \<longrightarrow>
      measure_results (acq_emit a) = measure_get_results (meas_mod (acq_emit a)) \<and>
      st_mod (acq_emit a) = fst (state_update_measure (measure_get_results (meas_mod (acq_emit a))) (st_mod a)) \<and>
      st_events (acq_emit a) =
        st_events a @ snd (state_update_measure (measure_get_results (meas_mod (acq_emit a))) (st_mod a))) \<and>
   (\<not> fst (measure_add_sample (word_of_int (v_mv a)) (word_of_int (mv a)) (meas_mod a)) \<longrightarrow>
      measure_results (acq_emit a) = measure_results a \<and> st_mod (acq_emit a) = st_mod a \<and>
      st_events (acq_emit a) = st_events a)"
  by (simp add: acq_emit_def Let_def split: prod.splits)

lemma value_in_range: "type1_data r AND 0x0FFF \<le> ADC_MAX_COUNT"
  by (simp add: ADC_MAX_COUNT_def word_and_le1)

text \<open>The \<^verbatim>\<open>for\<close> loop handles the records of the frame one by one, in order.\<close>

lemma acq_loop_from:
  "i \<le> n \<Longrightarrow>
   acq_loop cali result (sizeof_adc_digi_output_data_t * n) (sizeof_adc_digi_output_data_t * i) a =
     foldl (\<lambda>a k. acq_record cali (adc_record_at result (sizeof_adc_digi_output_data_t * k)) a) a [i..<n]"
proof (induction "n - i" arbitrary: i a)
  case 0
  then have "i = n" by simp
  then show ?case by (subst acq_loop.simps) simp
next
  case (Suc d)
  then have lt: "i < n" by simp
  let ?s = sizeof_adc_digi_output_data_t
  let ?a1 = "acq_record cali (adc_record_at result (?s * i)) a"
  have step: "?s * i + ?s = ?s * Suc i" by simp
  have d: "d = n - Suc i" using Suc.hyps(2) by simp
  have le: "Suc i \<le> n" using lt by simp
  have ih: "acq_loop cali result (?s * n) (?s * Suc i) ?a1 =
            foldl (\<lambda>a k. acq_record cali (adc_record_at result (?s * k)) a) ?a1 [Suc i..<n]"
    by (rule Suc.hyps(1) [OF d le])
  have pos: "?s * i < ?s * n"
    using lt by (simp add: sizeof_adc_digi_output_data_t_def)
  have "acq_loop cali result (?s * n) (?s * i) a = acq_loop cali result (?s * n) (?s * i + ?s) ?a1"
    using pos by (subst acq_loop.simps) (simp only: if_True)
  also have "\<dots> = acq_loop cali result (?s * n) (?s * Suc i) ?a1"
    by (simp only: step)
  also have "\<dots> = foldl (\<lambda>a k. acq_record cali (adc_record_at result (?s * k)) a) ?a1 [Suc i..<n]"
    by (rule ih)
  also have "\<dots> = foldl (\<lambda>a k. acq_record cali (adc_record_at result (?s * k)) a) a [i..<n]"
    using lt by (simp add: upt_conv_Cons del: mult_Suc_right)
  finally show ?case .
qed

lemma acq_frame_fold:
  assumes "ret_bytes mod sizeof_adc_digi_output_data_t = 0"
  shows "acq_frame cali ESP_OK result ret_bytes a =
     foldl (\<lambda>a k. acq_record cali (adc_record_at result (sizeof_adc_digi_output_data_t * k)) a) a
       [0..<ret_bytes div sizeof_adc_digi_output_data_t]"
proof -
  let ?s = sizeof_adc_digi_output_data_t
  have eq: "ret_bytes = ?s * (ret_bytes div ?s)"
    using assms by auto
  have "acq_loop cali result (?s * (ret_bytes div ?s)) (?s * 0) a =
        foldl (\<lambda>a k. acq_record cali (adc_record_at result (?s * k)) a) a [0..<ret_bytes div ?s]"
    by (rule acq_loop_from) simp
  then have "acq_loop cali result ret_bytes 0 a =
        foldl (\<lambda>a k. acq_record cali (adc_record_at result (?s * k)) a) a [0..<ret_bytes div ?s]"
    using eq by simp
  then show ?thesis using assms by (simp add: acq_frame_def)
qed

text \<open>One record, case by case.\<close>

lemma acq_record_cases:
  "let value = type1_data r AND 0x0FFF; channel = type1_channel r; a' = acq_record cali r a
    in (value > ADC_MAX_COUNT \<or> cali (unat value) = None \<longrightarrow> a' = a\<lparr>have_v := False\<rparr>) \<and>
       (\<forall>m. value \<le> ADC_MAX_COUNT \<and> cali (unat value) = Some m \<longrightarrow>
          (channel = ADC_CH_V \<longrightarrow> a' = a\<lparr>mv := m, v_mv := m, have_v := True\<rparr>) \<and>
          (channel = ADC_CH_I \<and> have_v a \<longrightarrow>
             (let v = word_of_int (v_mv a); i = word_of_int m;
                  (closed, mm) = measure_add_sample v i (meas_mod a)
              in meas_mod a' = mm \<and>
                 v_buf mm = (v_buf (meas_mod a))[sample_index (meas_mod a) := v] \<and>
                 i_buf mm = (i_buf (meas_mod a))[sample_index (meas_mod a) := i] \<and>
                 (if closed
                  then measure_results a' = measure_get_results mm \<and>
                       st_mod a' = fst (state_update_measure (measure_get_results mm) (st_mod a)) \<and>
                       st_events a' = st_events a @ snd (state_update_measure (measure_get_results mm) (st_mod a))
                  else measure_results a' = measure_results a \<and> st_mod a' = st_mod a \<and>
                       st_events a' = st_events a) \<and>
                 pairs a' = pairs a @ [(v, i)] \<and> \<not> have_v a' \<and> v_mv a' = v_mv a \<and> mv a' = m)) \<and>
          (channel = ADC_CH_I \<and> \<not> have_v a \<longrightarrow> a' = a\<lparr>mv := m\<rparr>))"
proof -
  have emit: "let v = word_of_int (v_mv a); i = word_of_int m;
                  (closed, mm) = measure_add_sample v i (meas_mod a); a' = (acq_emit (a\<lparr>mv := m\<rparr>))\<lparr>have_v := False\<rparr>
              in meas_mod a' = mm \<and>
                 v_buf mm = (v_buf (meas_mod a))[sample_index (meas_mod a) := v] \<and>
                 i_buf mm = (i_buf (meas_mod a))[sample_index (meas_mod a) := i] \<and>
                 (if closed
                  then measure_results a' = measure_get_results mm \<and>
                       st_mod a' = fst (state_update_measure (measure_get_results mm) (st_mod a)) \<and>
                       st_events a' = st_events a @ snd (state_update_measure (measure_get_results mm) (st_mod a))
                  else measure_results a' = measure_results a \<and> st_mod a' = st_mod a \<and>
                       st_events a' = st_events a) \<and>
                 pairs a' = pairs a @ [(v, i)] \<and> \<not> have_v a' \<and> v_mv a' = v_mv a \<and> mv a' = m" for m
    using acq_emit_window [of "a\<lparr>mv := m\<rparr>"]
          measure_add_sample_bufs(1,2) [of "word_of_int (v_mv a)" "word_of_int m" "meas_mod a"]
    by (simp add: Let_def case_prod_beta meas_mod_acq_emit mv_acq_emit pairs_acq_emit
        have_v_acq_emit v_mv_acq_emit)
  have rec_emit: "acq_record cali r a = (acq_emit (a\<lparr>mv := m\<rparr>))\<lparr>have_v := False\<rparr>"
    if "type1_data r AND 0x0FFF \<le> ADC_MAX_COUNT" "cali (unat (type1_data r AND 0x0FFF)) = Some m"
       "type1_channel r = ADC_CH_I" "have_v a" for m
    using that by (simp add: acq_record_def Let_def ADC_CH_V_def ADC_CH_I_def)
  show ?thesis
    apply (simp only: Let_def)
    apply (intro conjI allI impI)
    subgoal by (auto simp: acq_record_def Let_def split: option.splits)
    subgoal by (simp add: acq_record_def Let_def ADC_CH_V_def)
    subgoal for m using emit [of m] by (simp only: rec_emit Let_def)
    subgoal by (simp add: acq_record_def Let_def ADC_CH_V_def ADC_CH_I_def)
    done
qed

text \<open>The concrete frames.\<close>

lemma upt_small: "[0..<2] = [0, 1::nat]" "[0..<3] = [0, 1, 2::nat]" "[0..<1] = [0::nat]"
  by (simp_all add: numeral_eq_Suc)

lemma frame_pair_fold:
  "acq_frame cali_test ESP_OK frame_pair 4 acq_boot =
     acq_record cali_test 0x6456 (acq_record cali_test 0x4123 acq_boot)"
  by (simp add: acq_frame_fold sizeof_adc_digi_output_data_t_def upt_small rec1 rec2)

lemma frame_gap_fold:
  "acq_frame cali_test ESP_OK frame_gap 6 acq_boot =
     acq_record cali_test 0x6456 (acq_record cali_test 0x4FFF (acq_record cali_test 0x4123 acq_boot))"
  by (simp add: acq_frame_fold sizeof_adc_digi_output_data_t_def upt_small rec_gap)

lemma measure_flat_index: "sample_index measure_flat = 0"
  by (simp add: measure_flat_def)

text \<open>
  C6: a frame delivered with \<^verbatim>\<open>ESP_OK\<close> whose byte count is not a multiple of the record
  size leaves the task and the measurement module as they were; otherwise its records are
  handled one by one, in order. For one record with 12-bit value \<open>value\<close>: if \<open>value\<close>
  exceeds \<^verbatim>\<open>ADC_MAX_COUNT\<close> or the calibration fails, nothing changes but the pending-V
  flag, which is cleared. With calibration result \<open>m\<close>, a V-channel record stores \<open>m\<close> and
  sets the flag, and nothing else changes: \<^verbatim>\<open>measure_add_sample\<close> is not called. An
  I-channel record that finds the flag set calls \<^verbatim>\<open>measure_add_sample\<close> with the stored
  millivolts and \<open>m\<close>: the measurement module is left as that call leaves it, with the two
  values written at \<^verbatim>\<open>sample_index\<close> of \<^verbatim>\<open>v_buf\<close> and \<^verbatim>\<open>i_buf\<close>; when the call closes the
  window the results are computed and submitted to \<^verbatim>\<open>state_update_measure\<close>, and not
  otherwise; then the flag is cleared. An I-channel record that finds the flag clear changes
  nothing but the scratch variable \<^verbatim>\<open>mv\<close>.
\<close>

theorem acq_frame_pairing:
  "(ret_bytes mod sizeof_adc_digi_output_data_t \<noteq> 0 \<longrightarrow> acq_frame cali ESP_OK result ret_bytes a = a) \<and>
   (ret_bytes mod sizeof_adc_digi_output_data_t = 0 \<longrightarrow>
      acq_frame cali ESP_OK result ret_bytes a =
        foldl (\<lambda>a k. acq_record cali (adc_record_at result (sizeof_adc_digi_output_data_t * k)) a) a
          [0..<ret_bytes div sizeof_adc_digi_output_data_t]) \<and>
   (let value = type1_data r AND 0x0FFF; channel = type1_channel r; a' = acq_record cali r a
    in (value > ADC_MAX_COUNT \<or> cali (unat value) = None \<longrightarrow> a' = a\<lparr>have_v := False\<rparr>) \<and>
       (\<forall>m. value \<le> ADC_MAX_COUNT \<and> cali (unat value) = Some m \<longrightarrow>
          (channel = ADC_CH_V \<longrightarrow> a' = a\<lparr>mv := m, v_mv := m, have_v := True\<rparr>) \<and>
          (channel = ADC_CH_I \<and> have_v a \<longrightarrow>
             (let v = word_of_int (v_mv a); i = word_of_int m;
                  (closed, mm) = measure_add_sample v i (meas_mod a)
              in meas_mod a' = mm \<and>
                 v_buf mm = (v_buf (meas_mod a))[sample_index (meas_mod a) := v] \<and>
                 i_buf mm = (i_buf (meas_mod a))[sample_index (meas_mod a) := i] \<and>
                 (if closed
                  then measure_results a' = measure_get_results mm \<and>
                       st_mod a' = fst (state_update_measure (measure_get_results mm) (st_mod a)) \<and>
                       st_events a' = st_events a @ snd (state_update_measure (measure_get_results mm) (st_mod a))
                  else measure_results a' = measure_results a \<and> st_mod a' = st_mod a \<and>
                       st_events a' = st_events a) \<and>
                 pairs a' = pairs a @ [(v, i)] \<and> \<not> have_v a' \<and> v_mv a' = v_mv a \<and> mv a' = m)) \<and>
          (channel = ADC_CH_I \<and> \<not> have_v a \<longrightarrow> a' = a\<lparr>mv := m\<rparr>)))"
proof (intro conjI impI)
  assume "ret_bytes mod sizeof_adc_digi_output_data_t \<noteq> 0"
  then show "acq_frame cali ESP_OK result ret_bytes a = a" by (simp add: acq_frame_def)
next
  assume "ret_bytes mod sizeof_adc_digi_output_data_t = 0"
  then show "acq_frame cali ESP_OK result ret_bytes a =
        foldl (\<lambda>a k. acq_record cali (adc_record_at result (sizeof_adc_digi_output_data_t * k)) a) a
          [0..<ret_bytes div sizeof_adc_digi_output_data_t]"
    by (rule acq_frame_fold)
next
  show "let value = type1_data r AND 0x0FFF; channel = type1_channel r; a' = acq_record cali r a
    in (value > ADC_MAX_COUNT \<or> cali (unat value) = None \<longrightarrow> a' = a\<lparr>have_v := False\<rparr>) \<and>
       (\<forall>m. value \<le> ADC_MAX_COUNT \<and> cali (unat value) = Some m \<longrightarrow>
          (channel = ADC_CH_V \<longrightarrow> a' = a\<lparr>mv := m, v_mv := m, have_v := True\<rparr>) \<and>
          (channel = ADC_CH_I \<and> have_v a \<longrightarrow>
             (let v = word_of_int (v_mv a); i = word_of_int m;
                  (closed, mm) = measure_add_sample v i (meas_mod a)
              in meas_mod a' = mm \<and>
                 v_buf mm = (v_buf (meas_mod a))[sample_index (meas_mod a) := v] \<and>
                 i_buf mm = (i_buf (meas_mod a))[sample_index (meas_mod a) := i] \<and>
                 (if closed
                  then measure_results a' = measure_get_results mm \<and>
                       st_mod a' = fst (state_update_measure (measure_get_results mm) (st_mod a)) \<and>
                       st_events a' = st_events a @ snd (state_update_measure (measure_get_results mm) (st_mod a))
                  else measure_results a' = measure_results a \<and> st_mod a' = st_mod a \<and>
                       st_events a' = st_events a) \<and>
                 pairs a' = pairs a @ [(v, i)] \<and> \<not> have_v a' \<and> v_mv a' = v_mv a \<and> mv a' = m)) \<and>
          (channel = ADC_CH_I \<and> \<not> have_v a \<longrightarrow> a' = a\<lparr>mv := m\<rparr>))"
    by (rule acq_record_cases)
qed

theorem acq_frame_pairing_witness:
  "(3::nat) mod sizeof_adc_digi_output_data_t \<noteq> 0 \<and>
   acq_frame cali_test ESP_OK frame_pair 3 acq_boot = acq_boot \<and>
   (4::nat) mod sizeof_adc_digi_output_data_t = 0 \<and>
   pairs (acq_frame cali_test ESP_OK frame_pair 4 acq_boot) = [(0x123, 0x456)] \<and>
   v_buf (meas_mod (acq_frame cali_test ESP_OK frame_pair 4 acq_boot)) = (v_buf measure_flat)[0 := 0x123] \<and>
   i_buf (meas_mod (acq_frame cali_test ESP_OK frame_pair 4 acq_boot)) = (i_buf measure_flat)[0 := 0x456] \<and>
   sample_index (meas_mod (acq_frame cali_test ESP_OK frame_pair 4 acq_boot)) = 1 \<and>
   \<not> have_v (acq_frame cali_test ESP_OK frame_pair 4 acq_boot) \<and>
   acq_record cali_test 0x4123 acq_boot = acq_boot\<lparr>mv := 0x123, v_mv := 0x123, have_v := True\<rparr> \<and>
   cali_test (unat (type1_data 0x4FFF AND 0x0FFF)) = None \<and>
   \<not> have_v (acq_record cali_test 0x4FFF (acq_record cali_test 0x4123 acq_boot)) \<and>
   acq_record cali_test 0x6456 acq_boot = acq_boot\<lparr>mv := 0x456\<rparr> \<and>
   pairs (acq_frame cali_test ESP_OK frame_gap 6 acq_boot) = [] \<and>
   meas_mod (acq_frame cali_test ESP_OK frame_gap 6 acq_boot) = measure_flat"
proof -
  let ?av = "acq_boot\<lparr>mv := 0x123, v_mv := 0x123, have_v := True\<rparr>"
  note t1 = acq_frame_pairing [where ret_bytes = 3 and cali = cali_test and result = frame_pair
          and a = acq_boot and r = "0x4123"]
  note t2 = acq_frame_pairing [where ret_bytes = 4 and cali = cali_test and result = frame_pair
          and a = ?av and r = "0x4FFF"]
  note t3 = acq_frame_pairing [where ret_bytes = 6 and cali = cali_test and result = frame_gap
          and a = acq_boot and r = "0x6456"]
  note t4 = acq_frame_pairing [where ret_bytes = 4 and cali = cali_test and result = frame_pair
          and a = ?av and r = "0x6456"]
  have odd3: "(3::nat) mod sizeof_adc_digi_output_data_t \<noteq> 0"
    by (simp add: sizeof_adc_digi_output_data_t_def)
  from t1 odd3 have rej: "acq_frame cali_test ESP_OK frame_pair 3 acq_boot = acq_boot" by blast
  have v: "acq_record cali_test 0x4123 acq_boot = ?av"
    using t1 by (simp add: ch1 cali_test_def ADC_MAX_COUNT_def ADC_CH_V_def Let_def)
  have bad: "cali_test (unat (type1_data 0x4FFF AND 0x0FFF)) = None"
    by (simp add: ch3 cali_test_def)
  have cleared: "acq_record cali_test 0x4FFF ?av = ?av\<lparr>have_v := False\<rparr>"
    using t2 bad by (simp add: Let_def)
  have dropped: "acq_record cali_test 0x6456 a = a\<lparr>mv := 0x456\<rparr>" if "\<not> have_v a" for a
    using acq_frame_pairing [where ret_bytes = 6 and cali = cali_test and result = frame_gap
          and a = a and r = "0x6456"] that
    by (simp add: ch2 cali_test_def ADC_MAX_COUNT_def ADC_CH_I_def Let_def)
  have emitted:
    "meas_mod (acq_record cali_test 0x6456 ?av) = snd (measure_add_sample 0x123 0x456 measure_flat) \<and>
     v_buf (meas_mod (acq_record cali_test 0x6456 ?av)) = (v_buf measure_flat)[0 := 0x123] \<and>
     i_buf (meas_mod (acq_record cali_test 0x6456 ?av)) = (i_buf measure_flat)[0 := 0x456] \<and>
     pairs (acq_record cali_test 0x6456 ?av) = [(0x123, 0x456)] \<and>
     \<not> have_v (acq_record cali_test 0x6456 ?av)"
    using t4
    by (simp add: ch2 cali_test_def ADC_MAX_COUNT_def ADC_CH_I_def Let_def acq_boot_def
        measure_flat_index case_prod_beta)
  have idx: "sample_index (snd (measure_add_sample 0x123 0x456 measure_flat)) = 1"
    by (simp add: measure_add_sample_bufs measure_flat_index NUM_SAMPLES_ACCUM_def
        PAIRS_PER_CYCLE_def SAMPLE_FREQ_HZ_def FUND_FREQ_HZ_def NUM_CYCLES_ACCUM_def)
  have boot: "\<not> have_v acq_boot" "\<not> have_v (?av\<lparr>have_v := False\<rparr>)" by (simp_all add: acq_boot_def)
  have fp: "acq_frame cali_test ESP_OK frame_pair 4 acq_boot = acq_record cali_test 0x6456 ?av"
    by (simp only: frame_pair_fold v)
  have gap: "acq_frame cali_test ESP_OK frame_gap 6 acq_boot = ?av\<lparr>have_v := False\<rparr>\<lparr>mv := 0x456\<rparr>"
    by (simp only: frame_gap_fold v cleared dropped [OF boot(2)])
  have c3: "(4::nat) mod sizeof_adc_digi_output_data_t = 0"
    by (simp add: sizeof_adc_digi_output_data_t_def)
  note e1 = emitted [THEN conjunct1]
  note e2 = emitted [THEN conjunct2, THEN conjunct1]
  note e3 = emitted [THEN conjunct2, THEN conjunct2, THEN conjunct1]
  note e4 = emitted [THEN conjunct2, THEN conjunct2, THEN conjunct2, THEN conjunct1]
  note e5 = emitted [THEN conjunct2, THEN conjunct2, THEN conjunct2, THEN conjunct2]
  have c4: "pairs (acq_frame cali_test ESP_OK frame_pair 4 acq_boot) = [(0x123, 0x456)]"
    unfolding fp by (rule e4)
  have c5: "v_buf (meas_mod (acq_frame cali_test ESP_OK frame_pair 4 acq_boot)) = (v_buf measure_flat)[0 := 0x123]"
    unfolding fp by (rule e2)
  have c6: "i_buf (meas_mod (acq_frame cali_test ESP_OK frame_pair 4 acq_boot)) = (i_buf measure_flat)[0 := 0x456]"
    unfolding fp by (rule e3)
  have c7: "sample_index (meas_mod (acq_frame cali_test ESP_OK frame_pair 4 acq_boot)) = 1"
    unfolding fp e1 by (rule idx)
  have c8: "\<not> have_v (acq_frame cali_test ESP_OK frame_pair 4 acq_boot)"
    unfolding fp by (rule e5)
  have c11: "\<not> have_v (acq_record cali_test 0x4FFF (acq_record cali_test 0x4123 acq_boot))"
    by (simp add: v cleared)
  have c12: "acq_record cali_test 0x6456 acq_boot = acq_boot\<lparr>mv := 0x456\<rparr>"
    by (rule dropped [OF boot(1)])
  have c13: "pairs (acq_frame cali_test ESP_OK frame_gap 6 acq_boot) = []"
    unfolding gap by (simp add: acq_boot_def)
  have c14: "meas_mod (acq_frame cali_test ESP_OK frame_gap 6 acq_boot) = measure_flat"
    unfolding gap by (simp add: acq_boot_def)
  show ?thesis
    by (intro conjI) (fact odd3 rej c3 c4 c5 c6 c7 c8 v bad c11 c12 c13 c14)+
qed

subsection \<open>C8: the priority index\<close>

lemma swap_wanted_key:
  "swap_wanted cfg idx i j \<longleftrightarrow> load_key cfg (idx ! j) < load_key cfg (idx ! i)"
  by (auto simp: swap_wanted_def load_key_def Let_def)

text \<open>The first loop writes the ids in ascending order.\<close>

lemma rebuild_fill_length: "length (rebuild_fill i idx) = length idx"
  by (induction i idx rule: rebuild_fill.induct) (subst rebuild_fill.simps, simp)

lemma rebuild_fill_nth:
  "m < length idx \<Longrightarrow> length idx = NUM_LOADS \<Longrightarrow>
   rebuild_fill i idx ! m = (if i \<le> m then of_nat m else idx ! m)"
proof (induction i idx arbitrary: m rule: rebuild_fill.induct)
  case (1 i idx)
  show ?case
  proof (cases "i < NUM_LOADS")
    case True
    have "rebuild_fill i idx ! m = rebuild_fill (i + 1) (idx[i := of_nat i]) ! m"
      using True by (subst rebuild_fill.simps) simp
    also have "\<dots> = (if i + 1 \<le> m then of_nat m else idx[i := of_nat i] ! m)"
      using "1.IH" [OF True, of m] "1.prems" by simp
    also have "\<dots> = (if i \<le> m then of_nat m else idx ! m)"
      using "1.prems" True by (cases "m = i") auto
    finally show ?thesis .
  next
    case False
    then show ?thesis using "1.prems" by (subst rebuild_fill.simps) simp
  qed
qed

lemma rebuild_fill_0:
  assumes "length idx = NUM_LOADS"
  shows "rebuild_fill 0 idx = map of_nat [0..<NUM_LOADS]"
  using assms by (intro nth_equalityI) (simp_all add: rebuild_fill_length rebuild_fill_nth)

text \<open>
  The inner loop with counter \<open>j\<close>: it permutes the positions from \<open>i\<close> on, leaves the
  positions before \<open>i\<close> alone, and leaves at position \<open>i\<close> the smallest key of the
  positions it has compared.
\<close>

lemma rebuild_inner_unfold:
  "rebuild_inner cfg i j idx =
     (if j < NUM_LOADS then rebuild_inner cfg i (j + 1) (exchange cfg i j idx) else idx)"
  by (subst rebuild_inner.simps) (simp add: exchange_def)

lemma exchange_length [simp]: "length (exchange cfg i j idx) = length idx"
  by (simp add: exchange_def)

lemma exchange_mset:
  "i < length idx \<Longrightarrow> j < length idx \<Longrightarrow> mset (exchange cfg i j idx) = mset idx"
  by (simp add: exchange_def mset_swap)

lemma exchange_nth_other:
  "m \<noteq> i \<Longrightarrow> m \<noteq> j \<Longrightarrow> exchange cfg i j idx ! m = idx ! m"
  by (simp add: exchange_def)

lemma exchange_nth_i:
  "i < j \<Longrightarrow> j < length idx \<Longrightarrow>
   exchange cfg i j idx ! i = (if swap_wanted cfg idx i j then idx ! j else idx ! i)"
  by (simp add: exchange_def)

lemma exchange_nth_j:
  "i < j \<Longrightarrow> j < length idx \<Longrightarrow>
   exchange cfg i j idx ! j = (if swap_wanted cfg idx i j then idx ! i else idx ! j)"
  by (simp add: exchange_def)

lemma exchange_min:
  assumes "i < j" "j < length idx"
  shows "load_key cfg (exchange cfg i j idx ! i) \<le> load_key cfg (exchange cfg i j idx ! j)"
    and "load_key cfg (exchange cfg i j idx ! i) \<le> load_key cfg (idx ! i)"
  using assms by (auto simp: exchange_nth_i exchange_nth_j swap_wanted_key)

lemma rebuild_inner_length: "length (rebuild_inner cfg i j idx) = length idx"
proof (induction cfg i j idx rule: rebuild_inner.induct)
  case (1 cfg i j idx)
  show ?case
  proof (cases "j < NUM_LOADS")
    case True
    then have "length (rebuild_inner cfg i (j + 1) (exchange cfg i j idx)) = length (exchange cfg i j idx)"
      using "1.IH" by (simp add: exchange_def)
    then show ?thesis using True by (subst rebuild_inner_unfold) simp
  next
    case False
    then show ?thesis by (subst rebuild_inner_unfold) simp
  qed
qed

lemma rebuild_inner_mset:
  "i < j \<Longrightarrow> length idx = NUM_LOADS \<Longrightarrow> mset (rebuild_inner cfg i j idx) = mset idx"
proof (induction cfg i j idx rule: rebuild_inner.induct)
  case (1 cfg i j idx)
  show ?case
  proof (cases "j < NUM_LOADS")
    case True
    have "mset (rebuild_inner cfg i (j + 1) (exchange cfg i j idx)) = mset (exchange cfg i j idx)"
      using "1.IH" True "1.prems" by (simp add: exchange_def)
    also have "\<dots> = mset idx"
      using True "1.prems" by (simp add: exchange_mset)
    finally show ?thesis using True by (subst rebuild_inner_unfold) simp
  next
    case False
    then show ?thesis by (subst rebuild_inner_unfold) simp
  qed
qed

lemma rebuild_inner_prefix:
  "i < j \<Longrightarrow> m < i \<Longrightarrow> rebuild_inner cfg i j idx ! m = idx ! m"
proof (induction cfg i j idx rule: rebuild_inner.induct)
  case (1 cfg i j idx)
  show ?case
  proof (cases "j < NUM_LOADS")
    case True
    have "rebuild_inner cfg i (j + 1) (exchange cfg i j idx) ! m = exchange cfg i j idx ! m"
      using "1.IH" True "1.prems" by (simp add: exchange_def)
    also have "\<dots> = idx ! m"
      using "1.prems" by (simp add: exchange_nth_other)
    finally show ?thesis using True by (subst rebuild_inner_unfold) simp
  next
    case False
    then show ?thesis by (subst rebuild_inner_unfold) simp
  qed
qed

lemma exchange_suffix:
  assumes "i < j" "j < length idx" "i \<le> b" "b < length idx"
  shows "\<exists>b'. i \<le> b' \<and> b' < length idx \<and> exchange cfg i j idx ! b = idx ! b'"
proof -
  let ?w = "if swap_wanted cfg idx i j then (if b = i then j else if b = j then i else b) else b"
  have "i \<le> ?w" "?w < length idx" using assms by auto
  moreover have "exchange cfg i j idx ! b = idx ! ?w"
    using assms by (cases "b = i"; cases "b = j")
      (simp_all add: exchange_nth_i exchange_nth_j exchange_nth_other)
  ultimately show ?thesis by blast
qed

lemma rebuild_inner_suffix:
  "i < j \<Longrightarrow> length idx = NUM_LOADS \<Longrightarrow> i \<le> b \<Longrightarrow> b < NUM_LOADS \<Longrightarrow>
   \<exists>b'. i \<le> b' \<and> b' < NUM_LOADS \<and> rebuild_inner cfg i j idx ! b = idx ! b'"
proof (induction cfg i j idx rule: rebuild_inner.induct)
  case (1 cfg i j idx)
  show ?case
  proof (cases "j < NUM_LOADS")
    case True
    let ?e = "exchange cfg i j idx"
    have "\<exists>b'. i \<le> b' \<and> b' < NUM_LOADS \<and> rebuild_inner cfg i (j + 1) ?e ! b = ?e ! b'"
      using "1.IH" True "1.prems" by (simp add: exchange_def)
    then obtain b' where b': "i \<le> b'" "b' < NUM_LOADS" "rebuild_inner cfg i (j + 1) ?e ! b = ?e ! b'"
      by blast
    from exchange_suffix [of i j idx b' cfg] True "1.prems" b'
    obtain b'' where "i \<le> b''" "b'' < NUM_LOADS" "?e ! b' = idx ! b''" by auto
    with b' have "i \<le> b'' \<and> b'' < NUM_LOADS \<and> rebuild_inner cfg i (j + 1) ?e ! b = idx ! b''" by simp
    then show ?thesis using True by (subst rebuild_inner_unfold) auto
  next
    case False
    then show ?thesis using "1.prems" by (subst rebuild_inner_unfold) auto
  qed
qed

lemma rebuild_inner_min:
  "i < j \<Longrightarrow> length idx = NUM_LOADS \<Longrightarrow>
   (\<forall>m. i < m \<and> m < j \<longrightarrow> load_key cfg (idx ! i) \<le> load_key cfg (idx ! m)) \<Longrightarrow>
   i < m \<Longrightarrow> m < NUM_LOADS \<Longrightarrow>
   load_key cfg (rebuild_inner cfg i j idx ! i) \<le> load_key cfg (rebuild_inner cfg i j idx ! m)"
proof (induction cfg i j idx arbitrary: m rule: rebuild_inner.induct)
  case (1 cfg i j idx)
  show ?case
  proof (cases "j < NUM_LOADS")
    case True
    let ?e = "exchange cfg i j idx"
    have jl: "j < length idx" using True "1.prems" by simp
    have inv: "\<forall>n. i < n \<and> n < j + 1 \<longrightarrow> load_key cfg (?e ! i) \<le> load_key cfg (?e ! n)"
    proof (intro allI impI)
      fix n assume n: "i < n \<and> n < j + 1"
      show "load_key cfg (?e ! i) \<le> load_key cfg (?e ! n)"
      proof (cases "n = j")
        case True
        then show ?thesis using exchange_min(1) [OF "1.prems"(1) jl] by simp
      next
        case False
        then have nj: "n < j" using n by simp
        have "?e ! n = idx ! n" using n False by (simp add: exchange_nth_other)
        moreover have "load_key cfg (idx ! i) \<le> load_key cfg (idx ! n)"
          using "1.prems"(3) n nj by blast
        moreover have "load_key cfg (?e ! i) \<le> load_key cfg (idx ! i)"
          using exchange_min(2) [OF "1.prems"(1) jl] .
        ultimately show ?thesis by simp
      qed
    qed
    have "load_key cfg (rebuild_inner cfg i (j + 1) ?e ! i) \<le> load_key cfg (rebuild_inner cfg i (j + 1) ?e ! m)"
      using "1.IH" [of m] True "1.prems" inv by (simp add: exchange_def)
    then show ?thesis using True by (subst (1 2) rebuild_inner_unfold) simp
  next
    case False
    then have "j \<ge> NUM_LOADS" by simp
    then show ?thesis using "1.prems" by (subst (1 2) rebuild_inner_unfold) auto
  qed
qed

text \<open>The outer loop settles one more position in each round.\<close>

lemma settled_step:
  assumes len: "length idx = NUM_LOADS" and inv: "settled cfg i idx"
  shows "settled cfg (i + 1) (rebuild_inner cfg i (i + 1) idx)"
  unfolding settled_def
proof (intro allI impI)
  fix a b
  let ?r = "rebuild_inner cfg i (i + 1) idx"
  assume ab: "a < i + 1 \<and> a < b \<and> b < NUM_LOADS"
  show "load_key cfg (?r ! a) \<le> load_key cfg (?r ! b)"
  proof (cases "a = i")
    case True
    have "load_key cfg (?r ! i) \<le> load_key cfg (?r ! b)"
      by (rule rebuild_inner_min) (use len ab True in auto)
    then show ?thesis using True by simp
  next
    case False
    then have ai: "a < i" using ab by simp
    have ra: "?r ! a = idx ! a" using ai by (simp add: rebuild_inner_prefix)
    show ?thesis
    proof (cases "b < i")
      case True
      then have "?r ! b = idx ! b" by (simp add: rebuild_inner_prefix)
      then show ?thesis using ra inv ai ab unfolding settled_def by simp
    next
      case False
      then have "i \<le> b" by simp
      from rebuild_inner_suffix [of i "i + 1" idx b cfg] len this ab
      obtain b' where b': "i \<le> b'" "b' < NUM_LOADS" "?r ! b = idx ! b'" by auto
      have "load_key cfg (idx ! a) \<le> load_key cfg (idx ! b')"
        using inv ai b' unfolding settled_def by auto
      then show ?thesis using ra b' by simp
    qed
  qed
qed

lemma rebuild_outer_sorted:
  "length idx = NUM_LOADS \<Longrightarrow> settled cfg i idx \<Longrightarrow>
   length (rebuild_outer cfg i idx) = NUM_LOADS \<and>
   mset (rebuild_outer cfg i idx) = mset idx \<and>
   settled cfg (NUM_LOADS - 1) (rebuild_outer cfg i idx)"
proof (induction cfg i idx rule: rebuild_outer.induct)
  case (1 cfg i idx)
  show ?case
  proof (cases "i < NUM_LOADS - 1")
    case True
    let ?r = "rebuild_inner cfg i (i + 1) idx"
    have len: "length ?r = NUM_LOADS" using "1.prems" by (simp add: rebuild_inner_length)
    have ms: "mset ?r = mset idx" using "1.prems" by (simp add: rebuild_inner_mset)
    have st: "settled cfg (i + 1) ?r" using "1.prems" by (rule settled_step)
    from "1.IH" [OF True len st] ms
    have "length (rebuild_outer cfg (i + 1) ?r) = NUM_LOADS \<and>
          mset (rebuild_outer cfg (i + 1) ?r) = mset idx \<and>
          settled cfg (NUM_LOADS - 1) (rebuild_outer cfg (i + 1) ?r)" by simp
    then show ?thesis using True by (subst (1 2 3) rebuild_outer.simps) simp
  next
    case False
    then have "settled cfg (NUM_LOADS - 1) idx"
      using "1.prems"(2) unfolding settled_def by auto
    then show ?thesis using False "1.prems" by (subst (1 2 3) rebuild_outer.simps) simp
  qed
qed

lemma settled_0: "settled cfg 0 idx"
  by (simp add: settled_def)

lemma load_key_inj: "load_key cfg x = load_key cfg y \<longleftrightarrow> x = y"
  by (auto simp: load_key_def)

lemma unat_small_id: "x < NUM_LOADS \<Longrightarrow> unat (of_nat x :: uint8_t) = x"
  by (rule of_nat_inverse [OF refl]) (simp add: NUM_LOADS_def)

lemma distinct_ids: "distinct (map of_nat [0..<NUM_LOADS] :: uint8_t list)"
proof -
  have "inj_on (of_nat :: nat \<Rightarrow> uint8_t) (set [0..<NUM_LOADS])"
  proof (rule inj_onI)
    fix x y assume x: "x \<in> set [0..<NUM_LOADS]" and y: "y \<in> set [0..<NUM_LOADS]"
      and eq: "(of_nat x :: uint8_t) = of_nat y"
    from x have ux: "unat (of_nat x :: uint8_t) = x" by (simp add: unat_small_id)
    from y have uy: "unat (of_nat y :: uint8_t) = y" by (simp add: unat_small_id)
    have "unat (of_nat x :: uint8_t) = unat (of_nat y :: uint8_t)" by (simp only: eq)
    then show "x = y" by (simp only: ux uy)
  qed
  then show ?thesis by (simp add: distinct_map)
qed

lemma unat_ids: "map unat (map of_nat [0..<NUM_LOADS] :: uint8_t list) = [0..<NUM_LOADS]"
  by (rule nth_equalityI) (simp_all add: unat_small_id)

lemma rebuild_sorted_aux:
  assumes len: "length (priority_index c) = NUM_LOADS"
  defines "idx \<equiv> priority_index (control_rebuild_priority_index c)"
  shows "length idx = NUM_LOADS"
    and "mset idx = mset (map of_nat [0..<NUM_LOADS])"
    and "sorted_wrt (<) (map (load_key (s_cfg c)) idx)"
proof -
  let ?f = "rebuild_fill 0 (priority_index c)"
  have f: "?f = map of_nat [0..<NUM_LOADS]" using len by (rule rebuild_fill_0)
  have flen: "length ?f = NUM_LOADS" by (simp add: f)
  have idx: "idx = rebuild_outer (s_cfg c) 0 ?f"
    by (simp add: idx_def control_rebuild_priority_index_def)
  from rebuild_outer_sorted [OF flen settled_0, of "s_cfg c"]
  have l: "length idx = NUM_LOADS" and m: "mset idx = mset ?f"
    and s: "settled (s_cfg c) (NUM_LOADS - 1) idx"
    by (simp_all add: idx)
  show "length idx = NUM_LOADS" by (rule l)
  show ms: "mset idx = mset (map of_nat [0..<NUM_LOADS])" using m f by simp
  have d: "distinct idx"
    using ms distinct_ids by (metis mset_eq_imp_distinct_iff)
  show "sorted_wrt (<) (map (load_key (s_cfg c)) idx)"
    unfolding sorted_wrt_iff_nth_less
  proof (intro allI impI)
    fix a b assume ab: "a < b" and b: "b < length (map (load_key (s_cfg c)) idx)"
    then have bl: "b < NUM_LOADS" and al: "a < NUM_LOADS - 1" using l by auto
    have le: "load_key (s_cfg c) (idx ! a) \<le> load_key (s_cfg c) (idx ! b)"
      using s ab bl al unfolding settled_def by blast
    have "idx ! a \<noteq> idx ! b"
      using d ab bl l by (simp add: nth_eq_iff_index_eq)
    then have "load_key (s_cfg c) (idx ! a) \<noteq> load_key (s_cfg c) (idx ! b)"
      by (simp add: load_key_inj)
    with le have "load_key (s_cfg c) (idx ! a) < load_key (s_cfg c) (idx ! b)" by simp
    then show "map (load_key (s_cfg c)) idx ! a < map (load_key (s_cfg c)) idx ! b"
      using ab bl l by simp
  qed
qed

lemma rebuild_index_ok:
  assumes "length (priority_index c) = NUM_LOADS"
  shows "priority_index_ok (control_rebuild_priority_index c)"
proof -
  have cfg: "s_cfg (control_rebuild_priority_index c) = s_cfg c"
    by (simp add: control_rebuild_priority_index_def)
  have "mset (map unat (priority_index (control_rebuild_priority_index c)))
        = image_mset unat (mset (priority_index (control_rebuild_priority_index c)))"
    by (simp only: mset_map)
  also have "\<dots> = image_mset unat (mset (map of_nat [0..<NUM_LOADS] :: uint8_t list))"
    by (simp only: rebuild_sorted_aux(2) [OF assms])
  also have "\<dots> = mset (map unat (map of_nat [0..<NUM_LOADS] :: uint8_t list))"
    by (simp only: mset_map)
  also have "\<dots> = mset [0..<NUM_LOADS]" by (simp only: unat_ids)
  finally show ?thesis
    using rebuild_sorted_aux(3) [OF assms] by (simp add: priority_index_ok_def cfg)
qed

lemma rebuild_ties:
  assumes len: "length (priority_index c) = NUM_LOADS"
    and ab: "a < b" "b < NUM_LOADS"
    and tie: "priority (load (s_cfg c) ! unat (priority_index (control_rebuild_priority_index c) ! a)) =
              priority (load (s_cfg c) ! unat (priority_index (control_rebuild_priority_index c) ! b))"
  shows "priority_index (control_rebuild_priority_index c) ! a <
         priority_index (control_rebuild_priority_index c) ! b"
proof -
  let ?idx = "priority_index (control_rebuild_priority_index c)"
  have l: "length ?idx = NUM_LOADS" by (rule rebuild_sorted_aux(1) [OF len])
  have "map (load_key (s_cfg c)) ?idx ! a < map (load_key (s_cfg c)) ?idx ! b"
    using rebuild_sorted_aux(3) [OF len] ab l by (simp add: sorted_wrt_iff_nth_less)
  then have "load_key (s_cfg c) (?idx ! a) < load_key (s_cfg c) (?idx ! b)"
    using ab l by simp
  then show ?thesis using tie by (simp add: load_key_def)
qed

lemma rebuild_idem:
  assumes "length (priority_index c) = NUM_LOADS"
  shows "control_rebuild_priority_index (control_rebuild_priority_index c) = control_rebuild_priority_index c"
proof -
  let ?c' = "control_rebuild_priority_index c"
  have "length (priority_index ?c') = NUM_LOADS" by (rule rebuild_sorted_aux(1) [OF assms])
  then have "rebuild_fill 0 (priority_index ?c') = rebuild_fill 0 (priority_index c)"
    using assms by (simp add: rebuild_fill_0)
  moreover have "s_cfg ?c' = s_cfg c" by (simp add: control_rebuild_priority_index_def)
  ultimately show ?thesis by (simp add: control_rebuild_priority_index_def)
qed

lemma set_same_priority:
  assumes "unat id' < NUM_LOADS"
  shows "snd (control_set_load_priority id' (priority (load (s_cfg c) ! unat id')) c) =
         control_rebuild_priority_index c"
proof -
  have "upd_load (unat id') (\<lambda>l. l\<lparr>priority := priority (load (s_cfg c) ! unat id')\<rparr>) c = c"
    by (simp add: upd_load_def)
  then show ?thesis using assms by (simp add: control_set_load_priority_def)
qed

text \<open>
  C8: after \<^verbatim>\<open>control_rebuild_priority_index\<close>, for every configuration of priorities,
  \<^verbatim>\<open>priority_index\<close> holds each id of \<open>[0..NUM_LOADS)\<close> once, and its sequence of
  \<open>(priority, id)\<close> pairs increases strictly in the lexicographic order; so two loads of
  equal priority stand in the order of their ids. Rebuilding again changes nothing, and
  assigning to a load the priority it already has gives the same index. The same holds
  after \<^verbatim>\<open>control_set_load_priority\<close> with a valid id and after a successful
  \<^verbatim>\<open>control_load_from_nvs\<close>, which both end with the rebuild.
\<close>

theorem control_rebuild_priority_index_sorted:
  assumes "length (priority_index c) = NUM_LOADS"
  shows
    "let c' = control_rebuild_priority_index c; idx = priority_index c'
     in s_cfg c' = s_cfg c \<and> length idx = NUM_LOADS \<and>
        mset (map unat idx) = mset [0..<NUM_LOADS] \<and>
        sorted_wrt (<) (map (load_key (s_cfg c)) idx) \<and>
        (\<forall>a b. a < b \<and> b < NUM_LOADS \<and>
               priority (load (s_cfg c) ! unat (idx ! a)) = priority (load (s_cfg c) ! unat (idx ! b))
               \<longrightarrow> idx ! a < idx ! b) \<and>
        control_rebuild_priority_index c' = c' \<and>
        (unat id' < NUM_LOADS \<longrightarrow>
           priority_index_ok (snd (control_set_load_priority id' pr c)) \<and>
           snd (control_set_load_priority id' (priority (load (s_cfg c) ! unat id')) c) = c') \<and>
        priority_index_ok (snd (control_load_from_nvs (Some cfg) c))"
proof -
  let ?c' = "control_rebuild_priority_index c"
  have ok: "priority_index_ok ?c'" by (rule rebuild_index_ok [OF assms])
  have cfg: "s_cfg ?c' = s_cfg c" by (simp add: control_rebuild_priority_index_def)
  have setp: "priority_index_ok (snd (control_set_load_priority id' pr c))" if "unat id' < NUM_LOADS"
    using that assms by (simp add: control_set_load_priority_def rebuild_index_ok upd_load_def)
  have nvs: "priority_index_ok (snd (control_load_from_nvs (Some cfg) c))"
    using assms by (simp add: control_load_from_nvs_def rebuild_index_ok)
  show ?thesis
    unfolding Let_def
    using ok cfg setp nvs rebuild_sorted_aux(1) [OF assms] rebuild_idem [OF assms]
      rebuild_ties [OF assms] set_same_priority [of id' c]
    by (simp add: priority_index_ok_def)
qed

lemmas rebuild_eval =
  control_set_load_priority_def control_rebuild_priority_index_def upd_load_def
  control_default_def default_load_def NUM_LOADS_def rebuild_fill.simps rebuild_outer.simps
  rebuild_inner.simps swap_wanted_def Let_def

lemma control_prio2_eq:
  "control_prio2 =
     control_default\<lparr>s_cfg := \<lparr>imax = 5,
        load = [(default_load 0)\<lparr>priority := 2\<rparr>, default_load 1, default_load 2, default_load 3]\<rparr>,
       priority_index := [1, 0, 2, 3]\<rparr>"
  by (simp add: control_prio2_def rebuild_eval)

lemma control_prio2_rebuilt:
  "priority_index (control_rebuild_priority_index control_prio2) = [1, 0, 2, 3]"
  by (simp add: control_prio2_eq rebuild_eval)

lemma control_prio2_keys:
  "map (load_key (s_cfg control_prio2)) [1, 0, 2, 3] = [(1, 1), (2, 0), (2, 2), (3, 3)]"
  by (simp add: control_prio2_eq load_key_def control_default_def default_load_def)

lemma sorted_keys_prio2: "sorted_wrt (<) [(1, 1), (2, 0), (2, 2), (3, 3 :: uint8_t) :: uint8_t \<times> uint8_t]"
  by simp

lemma upt_NUM_LOADS: "[0..<NUM_LOADS] = [0, 1, 2, 3]"
  by (simp add: NUM_LOADS_def numeral_eq_Suc)

lemma perm_prio2: "mset (map unat [1, 0, 2, 3 :: uint8_t]) = mset [0..<NUM_LOADS]"
  by (simp add: upt_NUM_LOADS)

theorem control_rebuild_priority_index_sorted_witness:
  "length (priority_index control_prio2) = NUM_LOADS \<and>
   priority_index (control_rebuild_priority_index control_prio2) = [1, 0, 2, 3] \<and>
   map (load_key (s_cfg control_prio2)) (priority_index (control_rebuild_priority_index control_prio2)) =
     [(1, 1), (2, 0), (2, 2), (3, 3)] \<and>
   sorted_wrt (<) [(1, 1), (2, 0), (2, 2), (3, 3 :: uint8_t) :: uint8_t \<times> uint8_t] \<and>
   mset (map unat [1, 0, 2, 3 :: uint8_t]) = mset [0..<NUM_LOADS] \<and>
   unat (2 :: uint8_t) < NUM_LOADS \<and>
   priority (load (s_cfg control_prio2) ! unat (2 :: uint8_t)) = 2 \<and>
   snd (control_set_load_priority 2 2 control_prio2) = control_rebuild_priority_index control_prio2"
proof -
  have len: "length (priority_index control_prio2) = NUM_LOADS"
    by (simp add: control_prio2_eq control_default_def NUM_LOADS_def)
  have id2: "unat (2 :: uint8_t) < NUM_LOADS" by (simp add: NUM_LOADS_def)
  have pr2: "priority (load (s_cfg control_prio2) ! unat (2 :: uint8_t)) = 2"
    by (simp add: control_prio2_eq control_default_def default_load_def)
  note t = control_rebuild_priority_index_sorted
             [OF len, where id' = 2 and pr = 2 and cfg = "s_cfg control_default", unfolded Let_def]
  from t id2
  have "snd (control_set_load_priority 2 (priority (load (s_cfg control_prio2) ! unat (2 :: uint8_t)))
               control_prio2) = control_rebuild_priority_index control_prio2"
    by blast
  then have same: "snd (control_set_load_priority 2 2 control_prio2) =
                   control_rebuild_priority_index control_prio2"
    by (simp only: pr2)
  have keys: "map (load_key (s_cfg control_prio2)) (priority_index (control_rebuild_priority_index control_prio2)) =
     [(1, 1), (2, 0), (2, 2), (3, 3)]"
    by (simp only: control_prio2_rebuilt control_prio2_keys)
  from len control_prio2_rebuilt keys sorted_keys_prio2 perm_prio2 id2 pr2 same
  show ?thesis by blast
qed

end
